theory Spec2Isabelle
  imports Complex_Main
begin

section \<open>JavaScript values used by the storage layer\<close>

text \<open>
  Strings are lists of code units; \<^typ>\<open>char\<close> covers the code units 0..255.
  A value of type \<open>string | null\<close> is a \<^typ>\<open>string option\<close>, \<open>None\<close> being
  \<open>null\<close>.
\<close>

text \<open>\<open>if (x)\<close> for \<open>x: string | null\<close>: null and the empty string are falsy.\<close>

definition truthy :: "string option \<Rightarrow> bool" where
  "truthy x = (case x of None \<Rightarrow> False | Some v \<Rightarrow> v \<noteq> [])"

text \<open>\<open>value.slice(a, b)\<close> for \<open>0 \<le> a \<le> b\<close>: the code units from \<open>a\<close> up to, not
  including, \<open>b\<close>, cut at the end of the string.\<close>

definition slice :: "string \<Rightarrow> nat \<Rightarrow> nat \<Rightarrow> string" where
  "slice v a b = take (b - a) (drop a v)"

text \<open>\<open>n.toString()\<close> of a non-negative integer, and its use in a template literal:
  the decimal digits, most significant first.\<close>

definition digit_char :: "nat \<Rightarrow> char" where
  "digit_char d = char_of (48 + d)"

fun toString :: "nat \<Rightarrow> string" where
  "toString n = (if n < 10 then [digit_char n] else toString (n div 10) @ [digit_char (n mod 10)])"

declare toString.simps [simp del]

text \<open>
  \<open>parseInt(s, 10)\<close>: leading white space is skipped, one sign is read, then the longest
  run of decimal digits; with no digit the result is \<open>NaN\<close>, here \<open>None\<close>. The result
  is the exact integer (a JavaScript number is exact below \<open>2^53\<close>).
\<close>

definition isWhiteSpace :: "char \<Rightarrow> bool" where
  "isWhiteSpace c = (of_char c \<in> {9, 10, 11, 12, 13, 32, 160 :: nat})"

definition isDigit :: "char \<Rightarrow> bool" where
  "isDigit c = (48 \<le> (of_char c :: nat) \<and> (of_char c :: nat) \<le> 57)"

definition digitsValue :: "string \<Rightarrow> nat" where
  "digitsValue ds = foldl (\<lambda>a c. 10 * a + (of_char c - 48)) 0 ds"

definition parseInt :: "string \<Rightarrow> int option" where
  "parseInt s =
     (let t = dropWhile isWhiteSpace s;
          neg = (t \<noteq> [] \<and> hd t = CHR ''-'');
          u = (if t \<noteq> [] \<and> (hd t = CHR ''-'' \<or> hd t = CHR ''+'') then tl t else t);
          ds = takeWhile isDigit u
      in if ds = [] then None
         else Some (if neg then - int (digitsValue ds) else int (digitsValue ds)))"

section \<open>The primitive store (expo-secure-store)\<close>

text \<open>
  The primitive store is outside the repository. It is a map from keys to strings; each
  call may throw. Which calls throw is not up to the program: \<open>faults\<close> says, for the
  n-th call made on the store, whether it throws. A call that throws leaves the entries
  as they were.
\<close>

datatype storage_error = StoreFailure

record secure_store =
  entries :: "string \<rightharpoonup> string"
  faults :: "nat \<Rightarrow> bool"
  calls :: nat

type_synonym 'a store_result = "(storage_error + 'a) \<times> secure_store"

definition SecureStore_getItemAsync :: "string \<Rightarrow> secure_store \<Rightarrow> string option store_result" where
  "SecureStore_getItemAsync key s =
     (if faults s (calls s) then (Inl StoreFailure, s\<lparr>calls := Suc (calls s)\<rparr>)
      else (Inr (entries s key), s\<lparr>calls := Suc (calls s)\<rparr>))"

definition SecureStore_setItemAsync :: "string \<Rightarrow> string \<Rightarrow> secure_store \<Rightarrow> unit store_result" where
  "SecureStore_setItemAsync key v s =
     (if faults s (calls s) then (Inl StoreFailure, s\<lparr>calls := Suc (calls s)\<rparr>)
      else (Inr (), s\<lparr>entries := (entries s)(key \<mapsto> v), calls := Suc (calls s)\<rparr>))"

definition SecureStore_deleteItemAsync :: "string \<Rightarrow> secure_store \<Rightarrow> unit store_result" where
  "SecureStore_deleteItemAsync key s =
     (if faults s (calls s) then (Inl StoreFailure, s\<lparr>calls := Suc (calls s)\<rparr>)
      else (Inr (), s\<lparr>entries := (entries s)(key := None), calls := Suc (calls s)\<rparr>))"

text \<open>\<open>await\<close> in sequence: an exception of the first call skips the rest.\<close>

definition andThen :: "'a store_result \<Rightarrow> ('a \<Rightarrow> secure_store \<Rightarrow> 'b store_result) \<Rightarrow> 'b store_result" where
  "andThen m f = (case m of (Inl e, s) \<Rightarrow> (Inl e, s) | (Inr x, s) \<Rightarrow> f x s)"

text \<open>\<open>try { ... } catch (e) { }\<close>: the exception is dropped.\<close>

definition ignoreErrors :: "unit store_result \<Rightarrow> unit store_result" where
  "ignoreErrors m = (case m of (Inl e, s) \<Rightarrow> (Inr (), s) | (Inr x, s) \<Rightarrow> (Inr (), s))"

section \<open>nativeStorage (src/app/utils/storage.ts)\<close>

definition chunksKey :: "string \<Rightarrow> string" where
  "chunksKey key = key @ ''_chunks''"

definition chunkKey :: "string \<Rightarrow> nat \<Rightarrow> string" where
  "chunkKey key i = key @ ''_chunk_'' @ toString i"

text \<open>The loop of \<open>getItemAsync\<close>: \<open>for (let i = 0; i < chunkCount; i++)\<close>, each chunk
  appended when it is truthy. \<open>chunkCount\<close> is \<open>None\<close> for \<open>NaN\<close>, for which the test
  \<open>i < chunkCount\<close> is false.\<close>

definition lessCount :: "nat \<Rightarrow> int option \<Rightarrow> bool" where
  "lessCount i chunkCount = (case chunkCount of None \<Rightarrow> False | Some c \<Rightarrow> int i < c)"

function readChunks :: "string \<Rightarrow> int option \<Rightarrow> nat \<Rightarrow> string \<Rightarrow> secure_store \<Rightarrow> string store_result" where
  "readChunks key chunkCount i reconstructed s =
     (if lessCount i chunkCount then
        andThen (SecureStore_getItemAsync (chunkKey key i) s)
          (\<lambda>chunk s'. readChunks key chunkCount (Suc i)
             (if truthy chunk then reconstructed @ the chunk else reconstructed) s')
      else (Inr reconstructed, s))"
  by pat_completeness auto
termination
  by (relation "measure (\<lambda>(key, chunkCount, i, reconstructed, s).
        nat (case chunkCount of None \<Rightarrow> 0 | Some c \<Rightarrow> c) - i)")
     (auto simp: lessCount_def split: option.splits)

declare readChunks.simps [simp del]

definition getItemAsync :: "string \<Rightarrow> secure_store \<Rightarrow> string option \<times> secure_store" where
  "getItemAsync key s =
     (case andThen (SecureStore_getItemAsync (chunksKey key) s)
             (\<lambda>chunkInfo s'.
                if truthy chunkInfo then
                  andThen (readChunks key (parseInt (the chunkInfo)) 0 [] s')
                    (\<lambda>reconstructed s''. (Inr (Some reconstructed), s''))
                else SecureStore_getItemAsync key s')
      of (Inl e, s') \<Rightarrow> (None, s')
       | (Inr r, s') \<Rightarrow> (r, s'))"

text \<open>The first loop of \<open>setItemAsync\<close>:
  \<open>for (let i = 0; i < value.length; i += chunkSize) chunks.push(value.slice(i, i + chunkSize))\<close>.\<close>

definition chunkSize :: nat where
  "chunkSize = 2000"

function makeChunks :: "string \<Rightarrow> nat \<Rightarrow> string list \<Rightarrow> string list" where
  "makeChunks v i chunks =
     (if i < length v then makeChunks v (i + chunkSize) (chunks @ [slice v i (i + chunkSize)])
      else chunks)"
  by pat_completeness auto
termination
  by (relation "measure (\<lambda>(v, i, chunks). length v - i)") (auto simp: chunkSize_def)

declare makeChunks.simps [simp del]

text \<open>The second loop: \<open>for (let i = 0; i < chunks.length; i++)\<close>, one write per chunk.\<close>

function writeChunks :: "string \<Rightarrow> string list \<Rightarrow> nat \<Rightarrow> secure_store \<Rightarrow> unit store_result" where
  "writeChunks key chunks i s =
     (if i < length chunks then
        andThen (SecureStore_setItemAsync (chunkKey key i) (chunks ! i) s)
          (\<lambda>_ s'. writeChunks key chunks (Suc i) s')
      else (Inr (), s))"
  by pat_completeness auto
termination
  by (relation "measure (\<lambda>(key, chunks, i, s). length chunks - i)") auto

declare writeChunks.simps [simp del]

text \<open>The loop of \<open>deleteChunks\<close>: each deletion in its own \<open>try\<close>/\<open>catch\<close>.\<close>

function deleteChunkLoop :: "string \<Rightarrow> int option \<Rightarrow> nat \<Rightarrow> secure_store \<Rightarrow> unit store_result" where
  "deleteChunkLoop key chunkCount i s =
     (if lessCount i chunkCount then
        andThen (ignoreErrors (SecureStore_deleteItemAsync (chunkKey key i) s))
          (\<lambda>_ s'. deleteChunkLoop key chunkCount (Suc i) s')
      else (Inr (), s))"
  by pat_completeness auto
termination
  by (relation "measure (\<lambda>(key, chunkCount, i, s).
        nat (case chunkCount of None \<Rightarrow> 0 | Some c \<Rightarrow> c) - i)")
     (auto simp: lessCount_def split: option.splits)

declare deleteChunkLoop.simps [simp del]

definition deleteChunks :: "string \<Rightarrow> secure_store \<Rightarrow> unit store_result" where
  "deleteChunks key s =
     ignoreErrors
       (andThen (SecureStore_getItemAsync (chunksKey key) s)
          (\<lambda>chunkInfo s'.
             if truthy chunkInfo then
               andThen (deleteChunkLoop key (parseInt (the chunkInfo)) 0 s')
                 (\<lambda>_ s''. SecureStore_deleteItemAsync (chunksKey key) s'')
             else (Inr (), s')))"

definition setItemAsync :: "string \<Rightarrow> string \<Rightarrow> secure_store \<Rightarrow> unit store_result" where
  "setItemAsync key v s =
     (if length v > 2000 then
        (let chunks = makeChunks v 0 [] in
         andThen (SecureStore_setItemAsync (chunksKey key) (toString (length chunks)) s)
           (\<lambda>_ s1. andThen (writeChunks key chunks 0 s1)
              (\<lambda>_ s2. ignoreErrors (SecureStore_deleteItemAsync key s2))))
      else
        andThen (deleteChunks key s)
          (\<lambda>_ s1. SecureStore_setItemAsync key v s1))"

definition deleteItemAsync :: "string \<Rightarrow> secure_store \<Rightarrow> unit store_result" where
  "deleteItemAsync key s =
     andThen (SecureStore_deleteItemAsync key s) (\<lambda>_ s1. deleteChunks key s1)"

section \<open>JSON values and JSON.stringify\<close>

text \<open>
  The values that \<open>JSON.stringify\<close> writes and \<open>JSON.parse\<close> returns, with
  \<open>undefined\<close> for a property that is absent. An object is the list of its own
  properties in insertion order.

  A number is carried as the text that \<open>Number.prototype.toString\<close> gives for it
  (\<open>Number::toString\<close> of ECMA-262 in radix 10): \<open>0\<close>, \<open>75\<close>, \<open>-2.5\<close>,
  \<open>28.000000000000004\<close>, \<open>1e+21\<close>, and \<open>NaN\<close>, \<open>Infinity\<close>, \<open>-Infinity\<close> for the
  three values that are not finite. Two numbers with the same text are the same number,
  but for \<open>+0\<close> and \<open>-0\<close>, which nothing modelled here tells apart. The code copies
  the numbers of a record and serializes them; it computes with none of them.
\<close>

datatype json =
    JUndefined
  | JNull
  | JBool bool
  | JNum string
  | JStr string
  | JArr "json list"
  | JObj "(string \<times> json) list"

definition hexDigit :: "nat \<Rightarrow> char" where
  "hexDigit d = ''0123456789abcdef'' ! d"

text \<open>QuoteJSONString: the quotation mark and the backslash are escaped, the control
  characters below U+0020 are written \<open>\\b \\t \\n \\f \\r\<close> or \<open>\\u00XX\<close>.\<close>

definition escapeChar :: "char \<Rightarrow> string" where
  "escapeChar c =
     (if c = CHR 0x22 then [CHR 0x5C, CHR 0x22]
      else if c = CHR 0x5C then [CHR 0x5C, CHR 0x5C]
      else if c = CHR 0x08 then [CHR 0x5C, CHR ''b'']
      else if c = CHR 0x09 then [CHR 0x5C, CHR ''t'']
      else if c = CHR 0x0A then [CHR 0x5C, CHR ''n'']
      else if c = CHR 0x0C then [CHR 0x5C, CHR ''f'']
      else if c = CHR 0x0D then [CHR 0x5C, CHR ''r'']
      else if (of_char c :: nat) < 32 then
        [CHR 0x5C, CHR ''u'', CHR ''0'', CHR ''0'', hexDigit (of_char c div 16), hexDigit (of_char c mod 16)]
      else [c])"

definition quoteJSONString :: "string \<Rightarrow> string" where
  "quoteJSONString s = [CHR 0x22] @ concat (map escapeChar s) @ [CHR 0x22]"

text \<open>The number of an array length or of another count: its text is the decimal
  numeral, as \<open>Number::toString\<close> writes every integer below ten to the
  power 21.\<close>

definition numberOfNat :: "nat \<Rightarrow> json" where
  "numberOfNat n = JNum (toString n)"

text \<open>\<open>SerializeJSONProperty\<close> for a number: \<open>ToString\<close> of a finite number,
  \<open>null\<close> for the others.\<close>

definition isFiniteNumber :: "string \<Rightarrow> bool" where
  "isFiniteNumber t = (t \<noteq> ''NaN'' \<and> t \<noteq> ''Infinity'' \<and> t \<noteq> ''-Infinity'')"

definition numberToJSON :: "string \<Rightarrow> string" where
  "numberToJSON t = (if isFiniteNumber t then t else ''null'')"

fun joinWith :: "string \<Rightarrow> string list \<Rightarrow> string" where
  "joinWith sep [] = []"
| "joinWith sep [x] = x"
| "joinWith sep (x # y # ys) = x @ sep @ joinWith sep (y # ys)"

text \<open>\<open>JSON.stringify\<close> of a value inside an array or as a property value. In an array
  \<open>undefined\<close> is written \<open>null\<close>; a property whose value is \<open>undefined\<close> is left
  out of its object.\<close>

fun stringify :: "json \<Rightarrow> string"
  and stringifyElements :: "json list \<Rightarrow> string list"
  and stringifyProperties :: "(string \<times> json) list \<Rightarrow> string list" where
  "stringify JUndefined = ''null''"
| "stringify JNull = ''null''"
| "stringify (JBool b) = (if b then ''true'' else ''false'')"
| "stringify (JNum t) = numberToJSON t"
| "stringify (JStr s) = quoteJSONString s"
| "stringify (JArr xs) = ''['' @ joinWith '','' (stringifyElements xs) @ '']''"
| "stringify (JObj ps) = ''{'' @ joinWith '','' (stringifyProperties ps) @ ''}''"
| "stringifyElements [] = []"
| "stringifyElements (x # xs) = stringify x # stringifyElements xs"
| "stringifyProperties [] = []"
| "stringifyProperties ((k, v) # ps) =
     (if v = JUndefined then stringifyProperties ps
      else (quoteJSONString k @ '':'' @ stringify v) # stringifyProperties ps)"

section \<open>JavaScript number arithmetic\<close>

text \<open>
  A finite JavaScript number is a rational: an IEEE 754 double. The quotient and the
  product of two numbers are the exact results rounded to the nearest double, a tie
  going to the double whose significand is even. \<open>normalise a b e\<close> scales the
  fraction \<open>a / b\<close> by powers of two until it is at least \<open>2 ^ 52\<close> and less than
  \<open>2 ^ 53\<close>, with \<open>e\<close> the exponent taken out; rounding the scaled fraction to an
  integer then leaves the 53 bits of a significand. The range of the exponent is not
  modelled: the numbers computed below are quotients of array lengths, which are below
  \<open>2 ^ 32\<close>, and their products with 100, so they are zero or lie between
  \<open>1 / 2 ^ 32\<close> and 100, far from overflow and from the subnormal numbers.
\<close>

text \<open>The least significand of 53 bits.\<close>

definition mantissaLow :: int where
  "mantissaLow = 2 ^ 52"

function normalise :: "int \<Rightarrow> int \<Rightarrow> int \<Rightarrow> int \<times> int \<times> int" where
  "normalise a b e =
     (if a \<le> 0 \<or> b \<le> 0 then (a, b, e)
      else if a < mantissaLow * b then normalise (2 * a) b (e - 1)
      else if 2 * mantissaLow * b \<le> a then normalise a (2 * b) (e + 1)
      else (a, b, e))"
  by pat_completeness auto
termination
proof (relation "measure (\<lambda>(a, b, e). nat (mantissaLow * b - a) + nat (a + 1 - 2 * mantissaLow * b))")
  show "wf (measure (\<lambda>(a, b, e). nat (mantissaLow * b - a) + nat (a + 1 - 2 * mantissaLow * b)))"
    by simp
next
  fix a b e :: int
  assume pos: "\<not> (a \<le> 0 \<or> b \<le> 0)" and lt: "a < mantissaLow * b"
  define k where "k = mantissaLow * b"
  have a: "0 < a" using pos by simp
  have lt': "a < k" using lt by (simp add: k_def)
  have ineq: "nat (k - 2 * a) + nat (2 * a + 1 - 2 * k) < nat (k - a) + nat (a + 1 - 2 * k)"
    using a lt' by arith
  have eqs: "2 * mantissaLow * b = 2 * k" "mantissaLow * b = k"
    by (simp_all add: k_def)
  show "((2 * a, b, e - 1), a, b, e)
      \<in> measure (\<lambda>(a, b, e). nat (mantissaLow * b - a) + nat (a + 1 - 2 * mantissaLow * b))"
    unfolding in_measure prod.case eqs by (rule ineq)
next
  fix a b e :: int
  assume pos: "\<not> (a \<le> 0 \<or> b \<le> 0)" and "\<not> a < mantissaLow * b"
    and ge: "2 * mantissaLow * b \<le> a"
  define k where "k = mantissaLow * b"
  have "0 < mantissaLow" by (simp add: mantissaLow_def)
  then have k: "0 < k" using pos by (simp add: k_def)
  have ge': "2 * k \<le> a" using ge by (simp add: k_def mult.assoc)
  have ineq: "nat (2 * k - a) + nat (a + 1 - 4 * k) < nat (k - a) + nat (a + 1 - 2 * k)"
    using k ge' by arith
  have eqs: "mantissaLow * (2 * b) = 2 * k" "2 * mantissaLow * (2 * b) = 4 * k"
    "2 * mantissaLow * b = 2 * k" "mantissaLow * b = k"
    by (simp_all add: k_def)
  show "((a, 2 * b, e + 1), a, b, e)
      \<in> measure (\<lambda>(a, b, e). nat (mantissaLow * b - a) + nat (a + 1 - 2 * mantissaLow * b))"
    unfolding in_measure prod.case eqs by (rule ineq)
qed

declare normalise.simps [simp del]

text \<open>The integer nearest to \<open>a / b\<close>, the even one of two that are equally near.\<close>

definition roundHalfEven :: "int \<Rightarrow> int \<Rightarrow> int" where
  "roundHalfEven a b =
     (let f = a div b; r = a mod b
      in if 2 * r < b then f
         else if b < 2 * r then f + 1
         else if even f then f else f + 1)"

text \<open>The double nearest to \<open>a / b\<close>, for \<open>a\<close> and \<open>b\<close> not negative.\<close>

definition roundPositive :: "int \<Rightarrow> int \<Rightarrow> rat" where
  "roundPositive a b =
     (case normalise a b 0 of
        (a', b', e) \<Rightarrow>
          if a' \<le> 0 \<or> b' \<le> 0 then 0
          else of_int (roundHalfEven a' b') * (if 0 \<le> e then 2 ^ nat e else 1 / 2 ^ nat (- e)))"

definition roundToDouble :: "rat \<Rightarrow> rat" where
  "roundToDouble x =
     (case quotient_of x of
        (p, q) \<Rightarrow> if p < 0 then - roundPositive (- p) q else roundPositive p q)"

text \<open>\<open>x / y\<close> for \<open>y\<close> other than zero, and \<open>x * y\<close>.\<close>

definition jsDivide :: "rat \<Rightarrow> rat \<Rightarrow> rat" where
  "jsDivide x y = roundToDouble (x / y)"

definition jsMultiply :: "rat \<Rightarrow> rat \<Rightarrow> rat" where
  "jsMultiply x y = roundToDouble (x * y)"

section \<open>Terms and compliance statistics (src/app/contexts/SessionContext.tsx)\<close>

text \<open>
  Modelled from the spec: the declaration of \<open>ApiAnalysisTerm\<close> (services/api) is not
  among the sources. The spec's AnalysisTerm has an identifier, a validity verdict, an
  optional user confirmation flag and an optional expert override verdict; the fields
  below are the ones the source reads. An optional or nullable field is an \<open>option\<close>:
  \<open>None\<close> stands for both \<open>undefined\<close> and \<open>null\<close>.
\<close>

record ApiAnalysisTerm =
  term_id :: string
  term_text :: string
  is_valid_sharia :: bool
  is_confirmed_by_user :: "bool option"
  has_expert_feedback :: "bool option"
  expert_override_is_valid_sharia :: "bool option"

record FrontendAnalysisTerm = ApiAnalysisTerm +
  isUserConfirmed :: "bool option"
  userModifiedText :: "string option"
  currentQaAnswer :: "string option"
  reviewedSuggestion :: "string option"
  isReviewedSuggestionValid :: "bool option"
  reviewedSuggestionIssue :: "string option"
  expertFeedbackHistory :: "json list option"
  lastModified :: "string option"
  interactionCount :: "nat option"

record ComplianceStats =
  totalTerms :: nat
  currentUserEffectiveCompliantCount :: nat
  currentUserEffectiveNonCompliantCount :: nat
  overallCompliancePercentage :: rat
  expertReviewedTerms :: nat
  userModifiedTerms :: nat

text \<open>\<open>a ?? b\<close>.\<close>

definition nullish :: "'a option \<Rightarrow> 'a \<Rightarrow> 'a" where
  "nullish a b = (case a of None \<Rightarrow> b | Some v \<Rightarrow> v)"

text \<open>Truthiness of a \<open>boolean | null | undefined\<close>.\<close>

definition truthyFlag :: "bool option \<Rightarrow> bool" where
  "truthyFlag a = (case a of None \<Rightarrow> False | Some v \<Rightarrow> v)"

text \<open>The \<open>useMemo\<close> of \<open>complianceStats\<close>. The counts are array lengths, which are
  doubles exactly; the percentage is \<open>(compliantCount / totalTerms) * 100\<close> in the
  arithmetic of JavaScript numbers, each of the two operations rounding.\<close>

definition complianceStats :: "FrontendAnalysisTerm list option \<Rightarrow> ComplianceStats option" where
  "complianceStats analysisTerms =
     (case analysisTerms of
        None \<Rightarrow> None
      | Some terms \<Rightarrow>
          (let total = length terms in
           if total = 0 then
             Some \<lparr>totalTerms = 0,
                   currentUserEffectiveCompliantCount = 0,
                   currentUserEffectiveNonCompliantCount = 0,
                   overallCompliancePercentage = 0,
                   expertReviewedTerms = 0,
                   userModifiedTerms = 0\<rparr>
           else
             (let compliantCount = length (filter
                    (\<lambda>t. nullish (expert_override_is_valid_sharia t)
                           (if truthyFlag (isUserConfirmed t)
                            then nullish (isReviewedSuggestionValid t) True
                            else is_valid_sharia t)) terms);
                  expertReviewed = length (filter (\<lambda>t. truthyFlag (has_expert_feedback t)) terms);
                  userModified = length (filter (\<lambda>t. truthyFlag (isUserConfirmed t)) terms)
              in Some \<lparr>totalTerms = total,
                       currentUserEffectiveCompliantCount = compliantCount,
                       currentUserEffectiveNonCompliantCount = total - compliantCount,
                       overallCompliancePercentage =
                         jsMultiply (jsDivide (of_nat compliantCount) (of_nat total)) 100,
                       expertReviewedTerms = expertReviewed,
                       userModifiedTerms = userModified\<rparr>)))"

subsection \<open>The reference definition, from the words of the spec\<close>




section \<open>The simulated upload progress\<close>

text \<open>The callback of \<open>setInterval\<close> in \<open>uploadAndAnalyzeContract\<close>, given the previous
  value and the value \<open>r\<close> of \<open>Math.random()\<close>, \<open>0 \<le> r < 1\<close>. The values used below are
  dyadic, so that the floating point sum is the exact one.\<close>

definition progressTick :: "rat \<Rightarrow> rat \<Rightarrow> rat" where
  "progressTick prev r = (if prev \<ge> 90 then 90 else prev + r * 10)"

section \<open>The session context (src/app/contexts/SessionContext.tsx)\<close>

subsection \<open>Exceptions\<close>

text \<open>What a \<open>catch (err)\<close> may receive: an \<open>Error\<close> with its message, a string, or
  anything else. A \<open>TypeError\<close> is an \<open>Error\<close>; its message depends on the engine and
  is never read on the paths modelled here.\<close>

datatype thrown = ErrorObject string | ThrownString string | ThrownOther

definition typeError :: thrown where
  "typeError = ErrorObject ''TypeError''"

text \<open>\<open>let message = dflt; if (err instanceof Error) message = err.message;
  else if (typeof err === 'string') message = err;\<close>\<close>

definition errorMessage :: "string \<Rightarrow> thrown \<Rightarrow> string" where
  "errorMessage dflt err =
     (case err of ErrorObject m \<Rightarrow> m | ThrownString m \<Rightarrow> m | ThrownOther \<Rightarrow> dflt)"

definition thenT :: "thrown + 'a \<Rightarrow> ('a \<Rightarrow> thrown + 'b) \<Rightarrow> thrown + 'b" where
  "thenT m f = (case m of Inl e \<Rightarrow> Inl e | Inr x \<Rightarrow> f x)"

text \<open>\<open>xs.map(f)\<close> for an \<open>f\<close> that may throw: the first exception ends the loop.\<close>

fun mapT :: "('a \<Rightarrow> thrown + 'b) \<Rightarrow> 'a list \<Rightarrow> thrown + 'b list" where
  "mapT f [] = Inr []"
| "mapT f (x # xs) = thenT (f x) (\<lambda>y. thenT (mapT f xs) (\<lambda>ys. Inr (y # ys)))"

text \<open>\<open>s.includes(sub)\<close>.\<close>

fun includes_str :: "string \<Rightarrow> string \<Rightarrow> bool" where
  "includes_str [] sub = (sub = [])"
| "includes_str (c # cs) sub = (take (length sub) (c # cs) = sub \<or> includes_str cs sub)"

subsection \<open>Property access on parsed values\<close>

text \<open>\<open>o.k\<close> for a property name \<open>k\<close> that no array, string, number or boolean has:
  a \<open>TypeError\<close> on \<open>null\<close> and \<open>undefined\<close>, \<open>undefined\<close> where the property is
  absent.\<close>

definition getProp :: "json \<Rightarrow> string \<Rightarrow> thrown + json" where
  "getProp obj k =
     (case obj of
        JUndefined \<Rightarrow> Inl typeError
      | JNull \<Rightarrow> Inl typeError
      | JObj ps \<Rightarrow> Inr (case map_of ps k of None \<Rightarrow> JUndefined | Some v \<Rightarrow> v)
      | _ \<Rightarrow> Inr JUndefined)"

text \<open>\<open>k in o\<close>: a \<open>TypeError\<close> unless \<open>o\<close> is an object or an array.\<close>

definition hasProp :: "string \<Rightarrow> json \<Rightarrow> thrown + bool" where
  "hasProp k obj =
     (case obj of
        JObj ps \<Rightarrow> Inr (k \<in> set (map fst ps))
      | JArr xs \<Rightarrow> Inr False
      | _ \<Rightarrow> Inl typeError)"

subsection \<open>Data\<close>

datatype interaction_type = question_asked | term_modified | contract_generated | expert_feedback

fun interactionTypeName :: "interaction_type \<Rightarrow> string" where
  "interactionTypeName question_asked = ''question_asked''"
| "interactionTypeName term_modified = ''term_modified''"
| "interactionTypeName contract_generated = ''contract_generated''"
| "interactionTypeName expert_feedback = ''expert_feedback''"

text \<open>\<open>SessionInteraction\<close>. The field names carry a prefix, \<open>sessionId\<close> being a state
  variable of the provider as well.\<close>

record SessionInteraction =
  ia_sessionId :: string
  ia_timestamp :: string
  ia_type :: interaction_type
  ia_termId :: "string option"
  ia_data :: json

text \<open>\<open>Omit<SessionInteraction, "sessionId" | "timestamp">\<close>, the argument of
  \<open>addInteraction\<close>.\<close>

record InteractionInput =
  in_type :: interaction_type
  in_termId :: "string option"
  in_data :: json

text \<open>
  Modelled from the spec: the declaration of \<open>SessionDetailsApiResponse\<close> (services/api)
  is not among the sources. A session record has an identifier, a string; its other
  properties (filename, analysis timestamp, compliance percentage, detected language,
  original format, term subset, ...) are kept as they arrive, as JSON.
\<close>

record SessionDetailsApiResponse =
  session_id :: string
  properties :: "(string \<times> json) list"

record SessionDetails = SessionDetailsApiResponse +
  totalInteractions :: "nat option"
  lastInteractionTime :: "string option"
  isBookmarked :: "bool option"

text \<open>\<open>sessionData.k\<close> for a property other than the identifier.\<close>

definition propOf :: "'a SessionDetailsApiResponse_scheme \<Rightarrow> string \<Rightarrow> json" where
  "propOf sessionData k = (case map_of (properties sessionData) k of None \<Rightarrow> JUndefined | Some v \<Rightarrow> v)"

text \<open>The file handed to \<open>uploadAndAnalyzeContract\<close>: an object; the properties read
  are \<open>name\<close>, \<open>type\<close> and \<open>uri\<close>, each possibly absent. A call with \<open>null\<close> in place
  of the file, on which the logging before the validation already throws, is not
  modelled.\<close>

record upload_file =
  name :: "string option"
  type :: "string option"
  uri :: "string option"

subsection \<open>The external collaborators\<close>

text \<open>
  The API client (services/api) is outside the sources: each operation is a function
  from its arguments to the value it resolves with or the exception it rejects with.
  \<open>getSessionTerms\<close> may resolve with something that is not an array (\<open>None\<close>).
  \<open>JSON_parse\<close> is \<open>JSON.parse\<close>, \<open>None\<close> when it throws. \<open>now\<close> is
  \<open>new Date().toISOString()\<close>, \<open>getTime\<close> is \<open>new Date(t).getTime()\<close>, and \<open>randoms\<close>
  are the values of \<open>Math.random()\<close> at the ticks of the progress timer while the
  upload is pending.
\<close>

record environment =
  api_uploadContract :: "upload_file \<Rightarrow> thrown + string"
  api_getSessionDetails :: "string \<Rightarrow> thrown + SessionDetailsApiResponse"
  api_getSessionTerms :: "string \<Rightarrow> thrown + ApiAnalysisTerm list option"
  api_askQuestion :: "string \<Rightarrow> string \<Rightarrow> string option \<Rightarrow> string option \<Rightarrow> thrown + string"
  JSON_parse :: "string \<Rightarrow> json option"
  now :: string
  getTime :: "string \<Rightarrow> int"
  randoms :: "rat list"

datatype api_call =
    UploadContract upload_file
  | GetSessionDetails string
  | GetSessionTerms string
  | AskQuestion string string "string option" "string option"

subsection \<open>The state of the provider\<close>

text \<open>The \<open>useState\<close> cells of \<open>SessionProvider\<close>, the persistent store, and what has
  been sent to the outside: the calls made on the API client and the alerts shown.\<close>

record session_state =
  sessionId :: "string option"
  selectedSessionId :: "string option"
  analysisTerms :: "FrontendAnalysisTerm list option"
  sessionDetails :: "SessionDetails option"
  sessionInteractions :: "SessionInteraction list"
  isUploading :: bool
  uploadProgress :: rat
  isAnalyzingContract :: bool
  isFetchingSession :: bool
  isTermProcessing :: "string \<rightharpoonup> bool"
  isGeneratingContract :: bool
  isGeneratingMarkedContract :: bool
  isAskingQuestion :: bool
  isReviewingModification :: "string \<rightharpoonup> bool"
  isProcessingGeneralQuestion :: bool
  error :: "string option"
  uploadError :: "string option"
  analysisError :: "string option"
  storage :: secure_store
  apiCalls :: "api_call list"
  alerts :: "(string \<times> string) list"

subsection \<open>Storage keys (storageKeys, src/app/utils/storage.ts)\<close>

definition SHARIAA_SESSIONS :: string where
  "SHARIAA_SESSIONS = ''shariaa_sessions''"

definition SESSION_INTERACTIONS :: string where
  "SESSION_INTERACTIONS = ''shariaa_session_interactions''"

definition CURRENT_SESSION_ID :: string where
  "CURRENT_SESSION_ID = ''current_session_id''"

definition CURRENT_ANALYSIS_TERMS :: string where
  "CURRENT_ANALYSIS_TERMS = ''current_analysis_terms''"

definition CURRENT_SESSION_DETAILS :: string where
  "CURRENT_SESSION_DETAILS = ''current_session_details''"

subsection \<open>Operations\<close>

text \<open>
  An operation takes the state and returns the new one. The functions of the provider
  are closures: what they read of the state is what it was at the render that created
  them. The argument \<open>r\<close> of an operation is that state; \<open>s\<close> is the state it updates.
  An operation started from the user interface has \<open>r = s\<close>. \<open>storage\<close> is
  \<open>nativeStorage\<close> (the platform is not the web).
\<close>

definition getSessionInteractions :: "session_state \<Rightarrow> string \<Rightarrow> SessionInteraction list" where
  "getSessionInteractions r sid =
     filter (\<lambda>interaction. ia_sessionId interaction = sid) (sessionInteractions r)"

text \<open>\<open>JSON.stringify\<close> of an interaction \<open>{...interaction, sessionId, timestamp}\<close>.\<close>

definition interactionJson :: "SessionInteraction \<Rightarrow> json" where
  "interactionJson i =
     JObj [(''type'', JStr (interactionTypeName (ia_type i))),
           (''termId'', (case ia_termId i of None \<Rightarrow> JUndefined | Some t \<Rightarrow> JStr t)),
           (''data'', ia_data i),
           (''sessionId'', JStr (ia_sessionId i)),
           (''timestamp'', JStr (ia_timestamp i))]"

definition addInteraction ::
  "environment \<Rightarrow> session_state \<Rightarrow> InteractionInput \<Rightarrow> session_state \<Rightarrow> session_state" where
  "addInteraction env r interaction s =
     (if \<not> truthy (sessionId r) then s
      else
        (let newInteraction =
               \<lparr>ia_sessionId = the (sessionId r),
                ia_timestamp = now env,
                ia_type = in_type interaction,
                ia_termId = in_termId interaction,
                ia_data = in_data interaction\<rparr>;
             updatedInteractions = newInteraction # sessionInteractions r;
             s1 = s\<lparr>sessionInteractions := updatedInteractions\<rparr>
         in s1\<lparr>storage := snd (setItemAsync SESSION_INTERACTIONS
                   (stringify (JArr (map interactionJson updatedInteractions))) (storage s1))\<rparr>))"

definition getLocalSessions :: "environment \<Rightarrow> session_state \<Rightarrow> json \<times> session_state" where
  "getLocalSessions env s =
     (let (storedSessions, st) = getItemAsync SHARIAA_SESSIONS (storage s);
          s1 = s\<lparr>storage := st\<rparr>
      in if truthy storedSessions then
           (case JSON_parse env (the storedSessions) of
              None \<Rightarrow> (JArr [], s1)
            | Some v \<Rightarrow> (v, s1))
         else (JArr [], s1))"

text \<open>\<open>sessions.findIndex((s) => s.session_id === sessionData.session_id)\<close>, from index
  \<open>i\<close> on; \<open>None\<close> is \<open>-1\<close>.\<close>

fun findIndexOf :: "json list \<Rightarrow> string \<Rightarrow> nat \<Rightarrow> thrown + nat option" where
  "findIndexOf [] sid i = Inr None"
| "findIndexOf (x # xs) sid i =
     thenT (getProp x ''session_id'')
       (\<lambda>v. if v = JStr sid then Inr (Some i) else findIndexOf xs sid (Suc i))"

text \<open>The object built for each term of \<open>analysis_results\<close>.\<close>

definition termProjection :: "json \<Rightarrow> thrown + json" where
  "termProjection term =
     thenT (getProp term ''term_id'') (\<lambda>a.
     thenT (getProp term ''is_valid_sharia'') (\<lambda>b.
     thenT (getProp term ''is_confirmed_by_user'') (\<lambda>c.
     thenT (getProp term ''has_expert_feedback'') (\<lambda>d.
     thenT (getProp term ''expert_override_is_valid_sharia'') (\<lambda>e.
       Inr (JObj [(''term_id'', a), (''is_valid_sharia'', b), (''is_confirmed_by_user'', c),
                  (''has_expert_feedback'', d), (''expert_override_is_valid_sharia'', e)]))))))"

definition optimizedSessionData ::
  "environment \<Rightarrow> session_state \<Rightarrow> SessionDetailsApiResponse \<Rightarrow> thrown + json" where
  "optimizedSessionData env r sessionData =
     (let analysisResults =
            (case propOf sessionData ''analysis_results'' of JArr ts \<Rightarrow> ts | _ \<Rightarrow> [])
      in thenT (mapT termProjection analysisResults) (\<lambda>terms.
           Inr (JObj [(''_id'', propOf sessionData ''_id''),
                      (''session_id'', JStr (session_id sessionData)),
                      (''original_filename'', propOf sessionData ''original_filename''),
                      (''analysis_timestamp'', propOf sessionData ''analysis_timestamp''),
                      (''compliance_percentage'', propOf sessionData ''compliance_percentage''),
                      (''detected_contract_language'', propOf sessionData ''detected_contract_language''),
                      (''original_format'', propOf sessionData ''original_format''),
                      (''analysis_results'', JArr terms),
                      (''totalInteractions'',
                         numberOfNat (length (getSessionInteractions r (session_id sessionData)))),
                      (''lastInteractionTime'', JStr (now env))])))"

text \<open>The list after the replacement or the insertion at the front, cut to 20.\<close>

definition updatedSessions :: "json list \<Rightarrow> nat option \<Rightarrow> json \<Rightarrow> json list" where
  "updatedSessions sessions existingIndex optimized =
     take 20 (case existingIndex of
                Some i \<Rightarrow> sessions[i := optimized]
              | None \<Rightarrow> optimized # sessions)"

text \<open>The object built for each session when the list is too large.\<close>

definition minimalSession :: "json \<Rightarrow> thrown + json" where
  "minimalSession session =
     thenT (getProp session ''session_id'') (\<lambda>a.
     thenT (getProp session ''original_filename'') (\<lambda>b.
     thenT (getProp session ''analysis_timestamp'') (\<lambda>c.
     thenT (getProp session ''compliance_percentage'') (\<lambda>d.
     thenT (hasProp ''totalInteractions'' session) (\<lambda>hasTotal.
     thenT (if hasTotal then getProp session ''totalInteractions'' else Inr (JNum ''0'')) (\<lambda>e.
     thenT (hasProp ''lastInteractionTime'' session) (\<lambda>hasLast.
     thenT (if hasLast then getProp session ''lastInteractionTime'' else Inr (JStr [])) (\<lambda>f.
       Inr (JObj [(''session_id'', a), (''original_filename'', b), (''analysis_timestamp'', c),
                  (''compliance_percentage'', d), (''totalInteractions'', e),
                  (''lastInteractionTime'', f)])))))))))"

text \<open>The body of \<open>saveSessionLocally\<close> between the read and the write: the string
  handed to \<open>storage.setItemAsync\<close>, or the exception that ends the \<open>try\<close> block.
  A value read from the store that is not an array has no \<open>findIndex\<close>.\<close>

definition sessionsPayload ::
  "environment \<Rightarrow> session_state \<Rightarrow> SessionDetailsApiResponse \<Rightarrow> json \<Rightarrow> thrown + string" where
  "sessionsPayload env r sessionData stored =
     (case stored of
        JArr sessions \<Rightarrow>
          thenT (findIndexOf sessions (session_id sessionData) 0) (\<lambda>existingIndex.
          thenT (optimizedSessionData env r sessionData) (\<lambda>optimized.
            (let updated = updatedSessions sessions existingIndex optimized;
                 dataToStore = stringify (JArr updated)
             in if length dataToStore > 2000 then
                  thenT (mapT minimalSession updated) (\<lambda>minimalSessions.
                    Inr (stringify (JArr minimalSessions)))
                else Inr dataToStore)))
      | _ \<Rightarrow> Inl typeError)"

definition saveSessionLocally ::
  "environment \<Rightarrow> session_state \<Rightarrow> SessionDetailsApiResponse \<Rightarrow> session_state \<Rightarrow> session_state" where
  "saveSessionLocally env r sessionData s =
     (let (stored, s1) = getLocalSessions env s
      in case sessionsPayload env r sessionData stored of
           Inl e \<Rightarrow> s1
         | Inr payload \<Rightarrow>
             s1\<lparr>storage := snd (setItemAsync SHARIAA_SESSIONS payload (storage s1))\<rparr>)"

definition clearSession :: "session_state \<Rightarrow> session_state" where
  "clearSession s =
     (let s1 = s\<lparr>sessionId := None,
                  analysisTerms := None,
                  sessionDetails := None,
                  isUploading := False,
                  uploadProgress := 0,
                  isAnalyzingContract := False,
                  isFetchingSession := False,
                  isTermProcessing := Map.empty,
                  isGeneratingContract := False,
                  isGeneratingMarkedContract := False,
                  isAskingQuestion := False,
                  isReviewingModification := Map.empty,
                  isProcessingGeneralQuestion := False,
                  error := None,
                  uploadError := None,
                  analysisError := None\<rparr>
      in s1\<lparr>storage := snd
            (andThen (deleteItemAsync CURRENT_SESSION_ID (storage s1)) (\<lambda>_ st1.
             andThen (deleteItemAsync CURRENT_ANALYSIS_TERMS st1) (\<lambda>_ st2.
               deleteItemAsync CURRENT_SESSION_DETAILS st2)))\<rparr>)"

text \<open>The timestamp of the first of the interactions after the stable sort by
  descending time.\<close>

definition latestTimestamp :: "environment \<Rightarrow> SessionInteraction list \<Rightarrow> string option" where
  "latestTimestamp env xs =
     (case sort_key (\<lambda>i. - getTime env (ia_timestamp i)) xs of
        [] \<Rightarrow> None
      | i # _ \<Rightarrow> Some (ia_timestamp i))"

definition enrichTerm ::
  "environment \<Rightarrow> session_state \<Rightarrow> string \<Rightarrow> ApiAnalysisTerm \<Rightarrow> FrontendAnalysisTerm" where
  "enrichTerm env r sid term =
     \<lparr>term_id = term_id term,
      term_text = term_text term,
      is_valid_sharia = is_valid_sharia term,
      is_confirmed_by_user = is_confirmed_by_user term,
      has_expert_feedback = has_expert_feedback term,
      expert_override_is_valid_sharia = expert_override_is_valid_sharia term,
      isUserConfirmed = None,
      userModifiedText = None,
      currentQaAnswer = None,
      reviewedSuggestion = None,
      isReviewedSuggestionValid = None,
      reviewedSuggestionIssue = None,
      expertFeedbackHistory = None,
      lastModified = latestTimestamp env
        (filter (\<lambda>i. ia_termId i = Some (term_id term) \<and> ia_type i = term_modified)
           (getSessionInteractions r sid)),
      interactionCount = Some (length
        (filter (\<lambda>i. ia_termId i = Some (term_id term)) (getSessionInteractions r sid)))\<rparr>"

text \<open>\<open>loadSessionData\<close>. Both requests of \<open>Promise.all\<close> are sent; when the first one
  rejects, its exception is the one caught.\<close>

definition loadSessionData ::
  "environment \<Rightarrow> session_state \<Rightarrow> string \<Rightarrow> session_state \<Rightarrow> session_state" where
  "loadSessionData env r sid s =
     (let s1 = s\<lparr>isFetchingSession := True, error := None,
                  apiCalls := apiCalls s @ [GetSessionDetails sid, GetSessionTerms sid]\<rparr>;
          outcome =
            (case api_getSessionDetails env sid of
               Inl e \<Rightarrow> Inl e
             | Inr sessionData \<Rightarrow>
                 (case api_getSessionTerms env sid of
                    Inl e \<Rightarrow> Inl e
                  | Inr termsData \<Rightarrow> Inr (sessionData, termsData)));
          s4 =
            (case outcome of
               Inr (sessionData, termsData) \<Rightarrow>
                 (let safeTermsData = (case termsData of Some ts \<Rightarrow> ts | None \<Rightarrow> []);
                      enrichedTerms = map (enrichTerm env r sid) safeTermsData;
                      s2 = s1\<lparr>sessionId := Some (session_id sessionData),
                               selectedSessionId := Some (session_id sessionData),
                               sessionDetails := Some
                                 \<lparr>session_id = session_id sessionData,
                                  properties = properties sessionData,
                                  totalInteractions = Some (length (getSessionInteractions r sid)),
                                  lastInteractionTime =
                                    (case getSessionInteractions r sid of
                                       [] \<Rightarrow> None
                                     | i # _ \<Rightarrow> Some (ia_timestamp i)),
                                  isBookmarked =
                                    (case propOf sessionData ''isBookmarked'' of
                                       JBool b \<Rightarrow> Some b
                                     | _ \<Rightarrow> None)\<rparr>,
                               analysisTerms := Some enrichedTerms\<rparr>
                  in saveSessionLocally env r sessionData s2)
             | Inl err \<Rightarrow>
                 (let message = errorMessage ''Failed to load session.'' err;
                      s2 = s1\<lparr>error := Some message,
                               alerts := alerts s1 @ [(''Session Load Error'', message)]\<rparr>
                  in clearSession s2))
      in s4\<lparr>isFetchingSession := False\<rparr>)"

text \<open>The simulated progress while the upload is pending: one tick of the timer per
  value of \<open>randoms\<close>.\<close>

definition progressWhilePending :: "environment \<Rightarrow> rat \<Rightarrow> rat" where
  "progressWhilePending env p = foldl progressTick p (randoms env)"

definition uploadAndAnalyzeContract ::
  "environment \<Rightarrow> upload_file \<Rightarrow> session_state \<Rightarrow> string option \<times> session_state" where
  "uploadAndAnalyzeContract env file s =
     (let s1 = clearSession s;
          s2 = s1\<lparr>isUploading := True,
                   uploadProgress := 0,
                   isAnalyzingContract := True,
                   error := None,
                   uploadError := None,
                   analysisError := None\<rparr>;
          (outcome, s6) =
            (if \<not> truthy (name file) then (Inl (ErrorObject ''Invalid file: missing name''), s2)
             else if \<not> truthy (type file) then (Inl (ErrorObject ''Invalid file: missing type''), s2)
             else
               (let s3 = s2\<lparr>uploadProgress := progressWhilePending env (uploadProgress s2),
                            apiCalls := apiCalls s2 @ [UploadContract file]\<rparr>
                in case api_uploadContract env file of
                     Inl err \<Rightarrow> (Inl err, s3)
                   | Inr response_session_id \<Rightarrow>
                       (let s4 = loadSessionData env s response_session_id s3;
                            s5 = addInteraction env s
                                   \<lparr>in_type = question_asked,
                                    in_termId = None,
                                    in_data = JObj [(''action'', JStr ''contract_uploaded''),
                                                    (''filename'', JStr (the (name file)))]\<rparr> s4
                        in (Inr response_session_id, s5))));
          (result, s7) =
            (case outcome of
               Inr response_session_id \<Rightarrow> (Some response_session_id, s6)
             | Inl err \<Rightarrow>
                 (let message = errorMessage ''Failed to upload or analyze contract.'' err
                  in (None,
                      s6\<lparr>uploadError := Some
                            (if includes_str message ''400'' then
                               ''Invalid file format. Please check your file and try again.''
                             else if includes_str message ''413'' then
                               ''File too large. Please use a smaller file.''
                             else message),
                          analysisError := Some message,
                          error := Some message,
                          alerts := alerts s6 @ [(''Analysis Error'', message)]\<rparr>)))
      in (result, s7\<lparr>isUploading := False, isAnalyzingContract := False, uploadProgress := 0\<rparr>))"

text \<open>\<open>(t.interactionCount || 0) + 1\<close>.\<close>

definition bumpCount :: "nat option \<Rightarrow> nat option" where
  "bumpCount c = Some ((case c of None \<Rightarrow> 0 | Some n \<Rightarrow> n) + 1)"

definition askQuestionAboutTerm ::
  "environment \<Rightarrow> string \<Rightarrow> string \<Rightarrow> session_state \<Rightarrow> string option \<times> session_state" where
  "askQuestionAboutTerm env termId question s =
     (if \<not> truthy (sessionId s) \<or> analysisTerms s = None then (None, s)
      else
        (case find (\<lambda>t. term_id t = termId) (the (analysisTerms s)) of
           None \<Rightarrow> (None, s)
         | Some term \<Rightarrow>
             (let s1 = s\<lparr>isAskingQuestion := True,
                          isTermProcessing := (isTermProcessing s)(termId \<mapsto> True),
                          apiCalls := apiCalls s @
                            [AskQuestion (the (sessionId s)) question (Some termId) (Some (term_text term))]\<rparr>;
                  (result, s4) =
                    (case api_askQuestion env (the (sessionId s)) question (Some termId)
                            (Some (term_text term)) of
                       Inr answer \<Rightarrow>
                         (let s2 = s1\<lparr>analysisTerms :=
                                (case analysisTerms s1 of
                                   None \<Rightarrow> None
                                 | Some prevTerms \<Rightarrow> Some (map
                                     (\<lambda>t. if term_id t = termId
                                          then t\<lparr>currentQaAnswer := Some answer,
                                                 lastModified := Some (now env),
                                                 interactionCount := bumpCount (interactionCount t)\<rparr>
                                          else t) prevTerms))\<rparr>;
                              s3 = addInteraction env s
                                     \<lparr>in_type = question_asked,
                                      in_termId = Some termId,
                                      in_data = JObj [(''question'', JStr question),
                                                      (''answer'', JStr answer)]\<rparr> s2
                          in (Some answer, s3))
                     | Inl err \<Rightarrow>
                         (None, s1\<lparr>alerts := alerts s1 @
                            [(''Interaction Error'', errorMessage ''Failed to get answer'' err)]\<rparr>))
              in (result, s4\<lparr>isAskingQuestion := False,
                             isTermProcessing := (isTermProcessing s4)(termId \<mapsto> False)\<rparr>))))"

section \<open>Notions used to state the properties of the store\<close>

text \<open>A store is quiet when no call from now on throws.\<close>

definition quiet :: "secure_store \<Rightarrow> bool" where
  "quiet s = (\<forall>n \<ge> calls s. \<not> faults s n)"

text \<open>The chunk stored at index \<open>i\<close>, the empty string when there is none.\<close>

definition presentChunk :: "secure_store \<Rightarrow> string \<Rightarrow> nat \<Rightarrow> string" where
  "presentChunk s key i = (case entries s (chunkKey key i) of None \<Rightarrow> [] | Some c \<Rightarrow> c)"

text \<open>How often a loop \<open>for (i = 0; i < chunkCount; i++)\<close> runs.\<close>

definition countOf :: "int option \<Rightarrow> nat" where
  "countOf chunkCount = (case chunkCount of None \<Rightarrow> 0 | Some c \<Rightarrow> nat c)"

text \<open>\<open>later s s'\<close>: \<open>s'\<close> is \<open>s\<close> after some calls: the same fault schedule, the
  counter not smaller.\<close>

definition later :: "secure_store \<Rightarrow> secure_store \<Rightarrow> bool" where
  "later s s' = (faults s' = faults s \<and> calls s \<le> calls s')"

text \<open>A store with no entry whose calls never throw.\<close>

definition emptyStore :: secure_store where
  "emptyStore = \<lparr>entries = Map.empty, faults = (\<lambda>_. False), calls = 0\<rparr>"

text \<open>A store whose manifest for \<open>k\<close> announces three chunks, the middle one missing.\<close>

definition gappedStore :: secure_store where
  "gappedStore = \<lparr>entries = [''k_chunks'' \<mapsto> ''3'', ''k_chunk_0'' \<mapsto> ''ab'', ''k_chunk_2'' \<mapsto> ''cd''],
     faults = (\<lambda>_. False), calls = 0\<rparr>"

section \<open>Notions used to state the properties of the session list\<close>

text \<open>The list whose serialization \<open>saveSessionLocally\<close> hands to the store: the
  updated list, or its minimal projection when the serialization of the updated list is
  longer than 2000.\<close>

definition persistedSessions :: "json list \<Rightarrow> thrown + json list" where
  "persistedSessions updated =
     (if 2000 < length (stringify (JArr updated)) then mapT minimalSession updated
      else Inr updated)"

text \<open>The identifier of a stored record, \<open>undefined\<close> where there is none.\<close>

definition sessionIdOf :: "json \<Rightarrow> json" where
  "sessionIdOf x = (case getProp x ''session_id'' of Inl e \<Rightarrow> JUndefined | Inr v \<Rightarrow> v)"

text \<open>The property names of an object, in order.\<close>

definition objectKeys :: "json \<Rightarrow> string list" where
  "objectKeys x = (case x of JObj ps \<Rightarrow> map fst ps | _ \<Rightarrow> [])"

text \<open>The property names of a minimal record: identifier, filename, timestamp,
  compliance percentage and the two interaction counters.\<close>

definition minimalKeys :: "string list" where
  "minimalKeys = [''session_id'', ''original_filename'', ''analysis_timestamp'',
                  ''compliance_percentage'', ''totalInteractions'', ''lastInteractionTime'']"

text \<open>A stored value that is an object.\<close>

definition isRecord :: "json \<Rightarrow> bool" where
  "isRecord x = (case x of JObj ps \<Rightarrow> True | _ \<Rightarrow> False)"

text \<open>The value of a property of a stored record, \<open>undefined\<close> where there is none,
  and whether the record has the property.\<close>

definition propertyOf :: "json \<Rightarrow> string \<Rightarrow> json" where
  "propertyOf x k = (case x of JObj ps \<Rightarrow> (case map_of ps k of None \<Rightarrow> JUndefined | Some v \<Rightarrow> v)
                     | _ \<Rightarrow> JUndefined)"

definition hasProperty :: "json \<Rightarrow> string \<Rightarrow> bool" where
  "hasProperty x k = (case x of JObj ps \<Rightarrow> k \<in> set (map fst ps) | _ \<Rightarrow> False)"

text \<open>The minimal projection of a stored record: its identifier, filename, timestamp
  and compliance percentage, and its two interaction counters, which are 0 and the
  empty string for a record that has none.\<close>

definition minimalProjection :: "json \<Rightarrow> json" where
  "minimalProjection x =
     JObj [(''session_id'', propertyOf x ''session_id''),
           (''original_filename'', propertyOf x ''original_filename''),
           (''analysis_timestamp'', propertyOf x ''analysis_timestamp''),
           (''compliance_percentage'', propertyOf x ''compliance_percentage''),
           (''totalInteractions'',
              if hasProperty x ''totalInteractions'' then propertyOf x ''totalInteractions''
              else JNum ''0''),
           (''lastInteractionTime'',
              if hasProperty x ''lastInteractionTime'' then propertyOf x ''lastInteractionTime''
              else JStr [])]"

section \<open>Sample states and environments\<close>

text \<open>The state of the provider at its first render, over an empty store that never
  throws.\<close>

definition initialState :: session_state where
  "initialState =
     \<lparr>sessionId = None,
      selectedSessionId = None,
      analysisTerms = None,
      sessionDetails = None,
      sessionInteractions = [],
      isUploading = False,
      uploadProgress = 0,
      isAnalyzingContract = False,
      isFetchingSession = False,
      isTermProcessing = Map.empty,
      isGeneratingContract = False,
      isGeneratingMarkedContract = False,
      isAskingQuestion = False,
      isReviewingModification = Map.empty,
      isProcessingGeneralQuestion = False,
      error = None,
      uploadError = None,
      analysisError = None,
      storage = emptyStore,
      apiCalls = [],
      alerts = []\<rparr>"

text \<open>An environment in which every request is rejected and nothing parses.\<close>

definition offlineEnv :: environment where
  "offlineEnv =
     \<lparr>api_uploadContract = (\<lambda>_. Inl (ErrorObject ''Network Error'')),
      api_getSessionDetails = (\<lambda>_. Inl (ErrorObject ''Network Error'')),
      api_getSessionTerms = (\<lambda>_. Inl (ErrorObject ''Network Error'')),
      api_askQuestion = (\<lambda>_ _ _ _. Inl (ErrorObject ''Network Error'')),
      JSON_parse = (\<lambda>_. None),
      now = ''2024-01-01T00:00:00.000Z'',
      getTime = (\<lambda>_. 0),
      randoms = []\<rparr>"

text \<open>A state with an active session \<open>s1\<close> and the single term \<open>t1\<close>.\<close>

definition sampleTerm :: FrontendAnalysisTerm where
  "sampleTerm =
     \<lparr>term_id = ''t1'',
      term_text = ''The buyer pays interest on late instalments.'',
      is_valid_sharia = False,
      is_confirmed_by_user = None,
      has_expert_feedback = None,
      expert_override_is_valid_sharia = None,
      isUserConfirmed = None,
      userModifiedText = None,
      currentQaAnswer = None,
      reviewedSuggestion = None,
      isReviewedSuggestionValid = None,
      reviewedSuggestionIssue = None,
      expertFeedbackHistory = None,
      lastModified = None,
      interactionCount = Some 0\<rparr>"

definition readyState :: session_state where
  "readyState = initialState\<lparr>sessionId := Some ''s1'', analysisTerms := Some [sampleTerm]\<rparr>"

text \<open>A session record as the API delivers it, with the given filename, the record
  \<open>saveSessionLocally\<close> builds from it in \<open>initialState\<close> under \<open>offlineEnv\<close>, and its
  minimal projection.\<close>

definition sessionWithFilename :: "string \<Rightarrow> SessionDetailsApiResponse" where
  "sessionWithFilename f = \<lparr>session_id = ''s1'', properties = [(''original_filename'', JStr f)]\<rparr>"

definition fullRecord :: "string \<Rightarrow> json" where
  "fullRecord f =
     JObj [(''_id'', JUndefined),
           (''session_id'', JStr ''s1''),
           (''original_filename'', JStr f),
           (''analysis_timestamp'', JUndefined),
           (''compliance_percentage'', JUndefined),
           (''detected_contract_language'', JUndefined),
           (''original_format'', JUndefined),
           (''analysis_results'', JArr []),
           (''totalInteractions'', JNum ''0''),
           (''lastInteractionTime'', JStr ''2024-01-01T00:00:00.000Z'')]"

definition minimalRecord :: "string \<Rightarrow> json" where
  "minimalRecord f =
     JObj [(''session_id'', JStr ''s1''),
           (''original_filename'', JStr f),
           (''analysis_timestamp'', JUndefined),
           (''compliance_percentage'', JUndefined),
           (''totalInteractions'', JNum ''0''),
           (''lastInteractionTime'', JStr ''2024-01-01T00:00:00.000Z'')]"

text \<open>A session record with a filename and a compliance percentage, and the record
  \<open>saveSessionLocally\<close> builds from it in \<open>initialState\<close> under \<open>offlineEnv\<close>.\<close>

definition sessionWithPercentage :: "string \<Rightarrow> string \<Rightarrow> SessionDetailsApiResponse" where
  "sessionWithPercentage f p =
     \<lparr>session_id = ''s1'',
      properties = [(''original_filename'', JStr f), (''compliance_percentage'', JNum p)]\<rparr>"

definition fullRecordWithPercentage :: "string \<Rightarrow> string \<Rightarrow> json" where
  "fullRecordWithPercentage f p =
     JObj [(''_id'', JUndefined),
           (''session_id'', JStr ''s1''),
           (''original_filename'', JStr f),
           (''analysis_timestamp'', JUndefined),
           (''compliance_percentage'', JNum p),
           (''detected_contract_language'', JUndefined),
           (''original_format'', JUndefined),
           (''analysis_results'', JArr []),
           (''totalInteractions'', JNum ''0''),
           (''lastInteractionTime'', JStr ''2024-01-01T00:00:00.000Z'')]"

text \<open>A session record with the given identifier, and the record \<open>saveSessionLocally\<close>
  builds from it when the session has no interactions.\<close>

definition sampleSession :: "string \<Rightarrow> SessionDetailsApiResponse" where
  "sampleSession sid = \<lparr>session_id = sid, properties = [(''original_filename'', JStr ''contract.pdf'')]\<rparr>"

definition sampleRecord :: "string \<Rightarrow> json" where
  "sampleRecord sid =
     JObj [(''_id'', JUndefined),
           (''session_id'', JStr sid),
           (''original_filename'', JStr ''contract.pdf''),
           (''analysis_timestamp'', JUndefined),
           (''compliance_percentage'', JUndefined),
           (''detected_contract_language'', JUndefined),
           (''original_format'', JUndefined),
           (''analysis_results'', JArr []),
           (''totalInteractions'', JNum ''0''),
           (''lastInteractionTime'', JStr ''2024-01-01T00:00:00.000Z'')]"

text \<open>A history of twenty sessions \<open>a\<close> .. \<open>t\<close>, the most recent first, stored under the
  sessions key, and an environment whose \<open>JSON.parse\<close> reads the stored string back.\<close>

definition twentySessions :: "json list" where
  "twentySessions = map (\<lambda>c. JObj [(''session_id'', JStr [c])]) ''abcdefghijklmnopqrst''"

definition historyEnv :: environment where
  "historyEnv = offlineEnv\<lparr>JSON_parse :=
     (\<lambda>t. if t = stringify (JArr twentySessions) then Some (JArr twentySessions) else None)\<rparr>"

definition historyState :: session_state where
  "historyState = initialState\<lparr>storage :=
     \<lparr>entries = [SHARIAA_SESSIONS \<mapsto> stringify (JArr twentySessions)],
      faults = (\<lambda>_. False), calls = 0\<rparr>\<rparr>"

section \<open>Proofs: decimal strings and keys\<close>

lemma toString_nonempty: "toString n \<noteq> []"
  by (subst toString.simps) simp

lemma isDigit_digit_char: "d < 10 \<Longrightarrow> isDigit (digit_char d)"
  by (simp add: isDigit_def digit_char_def)

lemma of_char_digit_char: "d < 10 \<Longrightarrow> (of_char (digit_char d) :: nat) = 48 + d"
  by (simp add: digit_char_def)

lemma toString_digits: "c \<in> set (toString n) \<Longrightarrow> isDigit c"
proof (induction n arbitrary: c rule: toString.induct)
  case (1 n)
  show ?case
  proof (cases "n < 10")
    case True
    with "1.prems" show ?thesis
      by (subst (asm) toString.simps) (simp add: isDigit_digit_char)
  next
    case False
    with "1.prems" have "c \<in> set (toString (n div 10)) \<or> c = digit_char (n mod 10)"
      by (subst (asm) toString.simps) auto
    then show ?thesis
      using "1.IH" False by (auto simp: isDigit_digit_char)
  qed
qed

lemma digitsValue_snoc: "digitsValue (ds @ [c]) = 10 * digitsValue ds + (of_char c - 48)"
  by (simp add: digitsValue_def)

lemma digitsValue_toString: "digitsValue (toString n) = n"
proof (induction n rule: toString.induct)
  case (1 n)
  show ?case
  proof (cases "n < 10")
    case True
    then show ?thesis
      by (subst toString.simps) (simp add: digitsValue_def of_char_digit_char)
  next
    case False
    then have "digitsValue (toString n) = 10 * digitsValue (toString (n div 10)) + (of_char (digit_char (n mod 10)) - 48)"
      by (subst toString.simps) (simp add: digitsValue_snoc)
    also have "\<dots> = 10 * (n div 10) + n mod 10"
      using "1.IH" False by (simp add: of_char_digit_char)
    finally show ?thesis by simp
  qed
qed

lemma toString_inj: "toString a = toString b \<Longrightarrow> a = b"
  by (metis digitsValue_toString)

lemma isDigit_not_ws: "isDigit c \<Longrightarrow> \<not> isWhiteSpace c"
  by (auto simp: isDigit_def isWhiteSpace_def)

lemma isDigit_not_sign: "isDigit c \<Longrightarrow> c \<noteq> CHR ''-'' \<and> c \<noteq> CHR ''+''"
  by (auto simp: isDigit_def)

lemma parseInt_toString: "parseInt (toString n) = Some (int n)"
proof -
  have all: "\<forall>x \<in> set (toString n). isDigit x"
    using toString_digits by blast
  have ne: "toString n \<noteq> []"
    by (rule toString_nonempty)
  have c: "isDigit (hd (toString n))"
    using all ne by (cases "toString n") auto
  have dw: "dropWhile isWhiteSpace (toString n) = toString n"
    using c ne by (cases "toString n") (auto simp: isDigit_not_ws)
  have tw: "takeWhile isDigit (toString n) = toString n"
    using all by (simp add: takeWhile_eq_all_conv)
  show ?thesis
    using ne isDigit_not_sign[OF c]
    by (simp add: parseInt_def Let_def dw tw digitsValue_toString)
qed

lemma chunkKey_inj: "chunkKey k i = chunkKey k j \<longleftrightarrow> i = j"
  by (auto simp: chunkKey_def dest: toString_inj)

lemma chunkKey_ne_chunksKey: "chunkKey k i \<noteq> chunksKey k"
proof
  assume "chunkKey k i = chunksKey k"
  then have "toString i = ''s''"
    by (simp add: chunkKey_def chunksKey_def)
  then have "isDigit (CHR ''s'')"
    using toString_digits[of "CHR ''s''" i] by simp
  then show False by (simp add: isDigit_def)
qed

lemma chunkKey_ne_key: "chunkKey k i \<noteq> k"
  by (simp add: chunkKey_def)

lemma chunksKey_ne_key: "chunksKey k \<noteq> k"
  by (simp add: chunksKey_def)

lemma lessCount_countOf: "lessCount i cc \<longleftrightarrow> i < countOf cc"
  by (auto simp: lessCount_def countOf_def split: option.splits)

subsection \<open>Primitive calls in a quiet store\<close>

lemma quiet_tick: "quiet s \<Longrightarrow> quiet (s\<lparr>calls := Suc (calls s)\<rparr>)"
  by (simp add: quiet_def)

lemma quiet_entries_update: "quiet (s\<lparr>entries := m\<rparr>) = quiet s"
  by (simp add: quiet_def)

lemma quiet_now: "quiet s \<Longrightarrow> \<not> faults s (calls s)"
  by (simp add: quiet_def)

lemma get_quiet: "quiet s \<Longrightarrow>
  SecureStore_getItemAsync key s = (Inr (entries s key), s\<lparr>calls := Suc (calls s)\<rparr>)"
  by (simp add: SecureStore_getItemAsync_def quiet_now)

lemma set_quiet: "quiet s \<Longrightarrow>
  SecureStore_setItemAsync key v s = (Inr (), s\<lparr>entries := (entries s)(key \<mapsto> v), calls := Suc (calls s)\<rparr>)"
  by (simp add: SecureStore_setItemAsync_def quiet_now)

lemma delete_quiet: "quiet s \<Longrightarrow>
  SecureStore_deleteItemAsync key s = (Inr (), s\<lparr>entries := (entries s)(key := None), calls := Suc (calls s)\<rparr>)"
  by (simp add: SecureStore_deleteItemAsync_def quiet_now)

lemma andThen_Inr: "andThen (Inr x, s) f = f x s"
  by (simp add: andThen_def)

lemma andThen_Inl: "andThen (Inl e, s) f = (Inl e, s)"
  by (simp add: andThen_def)

lemma ignoreErrors_simp: "ignoreErrors (r, s) = (Inr (), s)"
  by (cases r) (simp_all add: ignoreErrors_def)

subsection \<open>Reading the chunks\<close>

lemma presentChunk_tick: "presentChunk (s\<lparr>calls := n\<rparr>) key i = presentChunk s key i"
  by (simp add: presentChunk_def)

lemma truthy_append: "(if truthy c then acc @ the c else acc) = acc @ (case c of None \<Rightarrow> [] | Some v \<Rightarrow> v)"
  by (cases c) (auto simp: truthy_def)

lemma acc_step:
  "(if truthy (entries s (chunkKey key i)) then acc @ the (entries s (chunkKey key i)) else acc)
     = acc @ presentChunk s key i"
  by (simp add: truthy_append presentChunk_def)

lemma readChunks_quiet:
  "quiet s \<Longrightarrow>
   \<exists>s'. readChunks key cc i acc s =
           (Inr (acc @ concat (map (presentChunk s key) [i..<countOf cc])), s')
        \<and> entries s' = entries s \<and> quiet s'"
proof (induction key cc i acc s rule: readChunks.induct)
  case (1 key cc i acc s)
  show ?case
  proof (cases "lessCount i cc")
    case False
    then have e: "[i..<countOf cc] = []"
      by (simp add: lessCount_countOf)
    have "readChunks key cc i acc s = (Inr acc, s)"
      using False by (subst readChunks.simps) simp
    with "1.prems" show ?thesis
      by (simp only: e) simp
  next
    case True
    let ?s1 = "s\<lparr>calls := Suc (calls s)\<rparr>"
    let ?acc1 = "acc @ presentChunk s key i"
    have q1: "quiet ?s1" using "1.prems" by (rule quiet_tick)
    have step: "readChunks key cc i acc s = readChunks key cc (Suc i) ?acc1 ?s1"
      using True "1.prems"
      by (subst readChunks.simps) (simp add: get_quiet andThen_Inr acc_step)
    from "1.IH"[OF True q1, of "entries s (chunkKey key i)"]
    obtain s' where s': "readChunks key cc (Suc i)
          (if truthy (entries s (chunkKey key i)) then acc @ the (entries s (chunkKey key i)) else acc) ?s1
        = (Inr ((if truthy (entries s (chunkKey key i)) then acc @ the (entries s (chunkKey key i)) else acc)
             @ concat (map (presentChunk ?s1 key) [Suc i..<countOf cc])), s')"
      "entries s' = entries ?s1" "quiet s'"
      by blast
    have range: "[i..<countOf cc] = i # [Suc i..<countOf cc]"
      using True by (simp add: lessCount_countOf upt_conv_Cons)
    have pc: "presentChunk ?s1 key = presentChunk s key"
      by (rule ext) (simp add: presentChunk_def)
    show ?thesis
      using s' step range pc
      by (simp add: acc_step)
  qed
qed

lemma getItemAsync_manifest:
  assumes q: "quiet s" and m: "entries s (chunksKey key) = Some m" and ne: "m \<noteq> []"
  shows "fst (getItemAsync key s) =
           Some (concat (map (presentChunk s key) [0..<countOf (parseInt m)]))"
proof -
  let ?s1 = "s\<lparr>calls := Suc (calls s)\<rparr>"
  have q1: "quiet ?s1" using q by (rule quiet_tick)
  obtain s' where r: "readChunks key (parseInt m) 0 [] ?s1 =
      (Inr ([] @ concat (map (presentChunk ?s1 key) [0..<countOf (parseInt m)])), s')"
    using readChunks_quiet[OF q1, of key "parseInt m" 0 "[]"] by blast
  have pc: "presentChunk ?s1 key = presentChunk s key"
    by (rule ext) (simp add: presentChunk_def)
  have t: "truthy (Some m)" using ne by (simp add: truthy_def)
  show ?thesis
    using r t by (simp add: getItemAsync_def get_quiet[OF q] m andThen_Inr pc)
qed

lemma getItemAsync_direct:
  assumes q: "quiet s" and m: "\<not> truthy (entries s (chunksKey key))"
  shows "fst (getItemAsync key s) = entries s key"
proof -
  let ?s1 = "s\<lparr>calls := Suc (calls s)\<rparr>"
  have q1: "quiet ?s1" using q by (rule quiet_tick)
  show ?thesis
    using m by (simp add: getItemAsync_def get_quiet[OF q] get_quiet[OF q1] andThen_Inr)
qed

lemma presentChunks_map_filter:
  "concat (map (presentChunk s key) xs) =
   concat (List.map_filter (\<lambda>i. entries s (chunkKey key i)) xs)"
  by (induction xs) (auto simp: presentChunk_def List.map_filter_simps split: option.splits)

subsection \<open>Cutting a value into chunks\<close>

lemma concat_makeChunks: "concat (makeChunks v i acc) = concat acc @ drop i v"
proof (induction v i acc rule: makeChunks.induct)
  case (1 v i acc)
  show ?case
  proof (cases "i < length v")
    case True
    have "drop i v = take chunkSize (drop i v) @ drop (i + chunkSize) v"
      by (metis add.commute append_take_drop_id drop_drop)
    with True "1.IH" show ?thesis
      by (subst makeChunks.simps) (simp add: slice_def)
  next
    case False
    then show ?thesis by (subst makeChunks.simps) simp
  qed
qed

lemma makeChunks_nonempty:
  "\<forall>c \<in> set acc. c \<noteq> [] \<Longrightarrow> \<forall>c \<in> set (makeChunks v i acc). c \<noteq> []"
proof (induction v i acc rule: makeChunks.induct)
  case (1 v i acc)
  show ?case
  proof (cases "i < length v")
    case True
    have "slice v i (i + chunkSize) \<noteq> []"
      using True by (simp add: slice_def chunkSize_def)
    with True "1.IH" "1.prems" show ?thesis
      by (subst makeChunks.simps) simp
  next
    case False
    with "1.prems" show ?thesis by (subst makeChunks.simps) simp
  qed
qed

lemma makeChunks_bounded:
  "\<forall>c \<in> set acc. length c \<le> chunkSize \<Longrightarrow> \<forall>c \<in> set (makeChunks v i acc). length c \<le> chunkSize"
proof (induction v i acc rule: makeChunks.induct)
  case (1 v i acc)
  show ?case
  proof (cases "i < length v")
    case True
    have "length (slice v i (i + chunkSize)) \<le> chunkSize"
      by (simp add: slice_def)
    with True "1.IH" "1.prems" show ?thesis
      by (subst makeChunks.simps) simp
  next
    case False
    with "1.prems" show ?thesis by (subst makeChunks.simps) simp
  qed
qed

subsection \<open>Writing the chunks\<close>

lemma set_ok:
  "fst (SecureStore_setItemAsync key v s) = Inr () \<Longrightarrow>
   SecureStore_setItemAsync key v s =
     (Inr (), s\<lparr>entries := (entries s)(key \<mapsto> v), calls := Suc (calls s)\<rparr>)"
  by (simp add: SecureStore_setItemAsync_def split: if_splits)

lemma set_cases:
  "SecureStore_setItemAsync key v s = (Inl StoreFailure, s\<lparr>calls := Suc (calls s)\<rparr>) \<or>
   SecureStore_setItemAsync key v s =
     (Inr (), s\<lparr>entries := (entries s)(key \<mapsto> v), calls := Suc (calls s)\<rparr>)"
  by (simp add: SecureStore_setItemAsync_def)

lemma delete_cases:
  "SecureStore_deleteItemAsync key s = (Inl StoreFailure, s\<lparr>calls := Suc (calls s)\<rparr>) \<or>
   SecureStore_deleteItemAsync key s =
     (Inr (), s\<lparr>entries := (entries s)(key := None), calls := Suc (calls s)\<rparr>)"
  by (simp add: SecureStore_deleteItemAsync_def)

lemma writeChunks_ok:
  "fst (writeChunks key chunks i s) = Inr () \<Longrightarrow>
   (\<forall>j. i \<le> j \<and> j < length chunks \<longrightarrow>
        entries (snd (writeChunks key chunks i s)) (chunkKey key j) = Some (chunks ! j)) \<and>
   (\<forall>x. (\<forall>j. i \<le> j \<and> j < length chunks \<longrightarrow> x \<noteq> chunkKey key j) \<longrightarrow>
        entries (snd (writeChunks key chunks i s)) x = entries s x) \<and>
   faults (snd (writeChunks key chunks i s)) = faults s \<and>
   calls s \<le> calls (snd (writeChunks key chunks i s))"
proof (induction key chunks i s rule: writeChunks.induct)
  case (1 key chunks i s)
  show ?case
  proof (cases "i < length chunks")
    case False
    then have "writeChunks key chunks i s = (Inr (), s)"
      by (subst writeChunks.simps) simp
    with False show ?thesis by auto
  next
    case True
    let ?s1 = "s\<lparr>entries := (entries s)(chunkKey key i \<mapsto> chunks ! i), calls := Suc (calls s)\<rparr>"
    have unf: "writeChunks key chunks i s =
        andThen (SecureStore_setItemAsync (chunkKey key i) (chunks ! i) s)
          (\<lambda>_ s'. writeChunks key chunks (Suc i) s')"
      using True by (subst writeChunks.simps) simp
    have ok: "SecureStore_setItemAsync (chunkKey key i) (chunks ! i) s = (Inr (), ?s1)"
      using set_cases[of "chunkKey key i" "chunks ! i" s] "1.prems" unf
      by (auto simp: andThen_Inl)
    have step: "writeChunks key chunks i s = writeChunks key chunks (Suc i) ?s1"
      using unf ok by (simp add: andThen_Inr)
    have ih: "(\<forall>j. Suc i \<le> j \<and> j < length chunks \<longrightarrow>
        entries (snd (writeChunks key chunks (Suc i) ?s1)) (chunkKey key j) = Some (chunks ! j)) \<and>
      (\<forall>x. (\<forall>j. Suc i \<le> j \<and> j < length chunks \<longrightarrow> x \<noteq> chunkKey key j) \<longrightarrow>
        entries (snd (writeChunks key chunks (Suc i) ?s1)) x = entries ?s1 x) \<and>
      faults (snd (writeChunks key chunks (Suc i) ?s1)) = faults ?s1 \<and>
      calls ?s1 \<le> calls (snd (writeChunks key chunks (Suc i) ?s1))"
      using "1.IH"[OF True, of ?s1] "1.prems" step by simp
    have a: "\<forall>j. i \<le> j \<and> j < length chunks \<longrightarrow>
        entries (snd (writeChunks key chunks (Suc i) ?s1)) (chunkKey key j) = Some (chunks ! j)"
    proof (intro allI impI)
      fix j assume j: "i \<le> j \<and> j < length chunks"
      show "entries (snd (writeChunks key chunks (Suc i) ?s1)) (chunkKey key j) = Some (chunks ! j)"
      proof (cases "j = i")
        case False
        with j ih show ?thesis by simp
      next
        case True
        have "\<forall>j'. Suc i \<le> j' \<and> j' < length chunks \<longrightarrow> chunkKey key i \<noteq> chunkKey key j'"
          by (simp add: chunkKey_inj)
        with ih have "entries (snd (writeChunks key chunks (Suc i) ?s1)) (chunkKey key i)
            = entries ?s1 (chunkKey key i)"
          by blast
        with True show ?thesis by simp
      qed
    qed
    have b: "\<forall>x. (\<forall>j. i \<le> j \<and> j < length chunks \<longrightarrow> x \<noteq> chunkKey key j) \<longrightarrow>
        entries (snd (writeChunks key chunks (Suc i) ?s1)) x = entries s x"
    proof (intro allI impI)
      fix x assume x: "\<forall>j. i \<le> j \<and> j < length chunks \<longrightarrow> x \<noteq> chunkKey key j"
      then have "x \<noteq> chunkKey key i" using True by auto
      moreover have "entries (snd (writeChunks key chunks (Suc i) ?s1)) x = entries ?s1 x"
        using ih x by auto
      ultimately show "entries (snd (writeChunks key chunks (Suc i) ?s1)) x = entries s x"
        by simp
    qed
    show ?thesis
      unfolding step using a b ih by simp
  qed
qed

subsection \<open>What no call changes: the fault schedule; the call counter only grows\<close>

lemma later_refl: "later s s"
  by (simp add: later_def)

lemma later_trans: "later s s1 \<Longrightarrow> later s1 s2 \<Longrightarrow> later s s2"
  by (simp add: later_def)

lemma quiet_later: "quiet s \<Longrightarrow> later s s' \<Longrightarrow> quiet s'"
  by (simp add: quiet_def later_def)

lemma later_get: "later s (snd (SecureStore_getItemAsync key s))"
  by (simp add: SecureStore_getItemAsync_def later_def)

lemma later_set: "later s (snd (SecureStore_setItemAsync key v s))"
  by (simp add: SecureStore_setItemAsync_def later_def)

lemma later_delete: "later s (snd (SecureStore_deleteItemAsync key s))"
  by (simp add: SecureStore_deleteItemAsync_def later_def)

lemma snd_ignoreErrors: "snd (ignoreErrors m) = snd m"
  by (cases m) (simp add: ignoreErrors_simp)

lemma fst_ignoreErrors: "fst (ignoreErrors m) = Inr ()"
  by (cases m) (simp add: ignoreErrors_simp)

lemma later_andThen:
  assumes "later s (snd m)" and "\<And>x s1. later s1 (snd (f x s1))"
  shows "later s (snd (andThen m f))"
proof (cases m)
  case (Pair r s1)
  show ?thesis
  proof (cases r)
    case (Inl e)
    with Pair assms(1) show ?thesis by (simp add: andThen_Inl)
  next
    case (Inr x)
    with Pair assms(1) assms(2)[of s1 x] show ?thesis
      by (auto simp: andThen_Inr intro: later_trans)
  qed
qed

lemma later_writeChunks: "later s (snd (writeChunks key chunks i s))"
proof (induction key chunks i s rule: writeChunks.induct)
  case (1 key chunks i s)
  show ?case
  proof (cases "i < length chunks")
    case False
    then show ?thesis by (subst writeChunks.simps) (simp add: later_refl)
  next
    case True
    have "later s (snd (andThen (SecureStore_setItemAsync (chunkKey key i) (chunks ! i) s)
          (\<lambda>_ s'. writeChunks key chunks (Suc i) s')))"
      by (rule later_andThen[OF later_set]) (rule "1.IH"[OF True])
    with True show ?thesis by (subst writeChunks.simps) simp
  qed
qed

lemma later_deleteChunkLoop: "later s (snd (deleteChunkLoop key cc i s))"
proof (induction key cc i s rule: deleteChunkLoop.induct)
  case (1 key cc i s)
  show ?case
  proof (cases "lessCount i cc")
    case False
    then show ?thesis by (subst deleteChunkLoop.simps) (simp add: later_refl)
  next
    case True
    have "later s (snd (andThen (ignoreErrors (SecureStore_deleteItemAsync (chunkKey key i) s))
          (\<lambda>_ s'. deleteChunkLoop key cc (Suc i) s')))"
      by (rule later_andThen) (simp_all add: snd_ignoreErrors later_delete "1.IH"[OF True])
    with True show ?thesis by (subst deleteChunkLoop.simps) simp
  qed
qed

lemma later_deleteChunks: "later s (snd (deleteChunks key s))"
  unfolding deleteChunks_def snd_ignoreErrors
  by (intro later_andThen later_get)
     (auto simp: later_refl intro!: later_andThen later_deleteChunkLoop later_delete)

lemma later_setItemAsync: "later s (snd (setItemAsync key v s))"
  unfolding setItemAsync_def Let_def
  by (auto simp: snd_ignoreErrors
      intro!: later_andThen later_set later_writeChunks later_delete later_deleteChunks)

lemma later_deleteItemAsync: "later s (snd (deleteItemAsync key s))"
  unfolding deleteItemAsync_def
  by (intro later_andThen later_delete later_deleteChunks)

subsection \<open>The chunked branch of setItemAsync\<close>

lemma andThen_fst_Inr:
  "fst (andThen m f) = Inr y \<Longrightarrow> \<exists>x. fst m = Inr x \<and> andThen m f = f x (snd m)"
  by (cases m; cases "fst m") (auto simp: andThen_def)

lemma setItemAsync_chunked:
  assumes len: "2000 < length v" and ok: "fst (setItemAsync key v s) = Inr ()"
  defines "chunks \<equiv> makeChunks v 0 []"
  defines "s' \<equiv> snd (setItemAsync key v s)"
  shows "entries s' (chunksKey key) = Some (toString (length chunks))"
    and "\<forall>j < length chunks. entries s' (chunkKey key j) = Some (chunks ! j)"
    and "\<forall>j \<ge> length chunks. entries s' (chunkKey key j) = entries s (chunkKey key j)"
proof -
  let ?s1 = "s\<lparr>entries := (entries s)(chunksKey key \<mapsto> toString (length chunks)),
                calls := Suc (calls s)\<rparr>"
  let ?s2 = "snd (writeChunks key chunks 0 ?s1)"
  have unf: "setItemAsync key v s =
      andThen (SecureStore_setItemAsync (chunksKey key) (toString (length chunks)) s)
        (\<lambda>_ s1. andThen (writeChunks key chunks 0 s1)
           (\<lambda>_ s2. ignoreErrors (SecureStore_deleteItemAsync key s2)))"
    using len by (simp add: setItemAsync_def chunks_def Let_def)
  have set1: "SecureStore_setItemAsync (chunksKey key) (toString (length chunks)) s = (Inr (), ?s1)"
    using set_cases[of "chunksKey key" "toString (length chunks)" s] ok unf
    by (auto simp: andThen_Inl)
  have unf2: "setItemAsync key v s =
      andThen (writeChunks key chunks 0 ?s1)
        (\<lambda>_ s2. ignoreErrors (SecureStore_deleteItemAsync key s2))"
    using unf set1 by (simp add: andThen_Inr)
  have w: "fst (writeChunks key chunks 0 ?s1) = Inr ()"
    using andThen_fst_Inr[of "writeChunks key chunks 0 ?s1" _ "()"] ok unf2 by auto
  have unf3: "setItemAsync key v s = ignoreErrors (SecureStore_deleteItemAsync key ?s2)"
    using w unf2 by (cases "writeChunks key chunks 0 ?s1") (simp add: andThen_Inr)
  have wk: "\<forall>j. 0 \<le> j \<and> j < length chunks \<longrightarrow> entries ?s2 (chunkKey key j) = Some (chunks ! j)"
    and wf: "\<forall>x. (\<forall>j. 0 \<le> j \<and> j < length chunks \<longrightarrow> x \<noteq> chunkKey key j) \<longrightarrow>
        entries ?s2 x = entries ?s1 x"
    using writeChunks_ok[OF w] by blast+
  have fin: "\<forall>x. x \<noteq> key \<longrightarrow> entries s' x = entries ?s2 x"
    using delete_cases[of key ?s2]
    by (auto simp: s'_def unf3 ignoreErrors_simp)
  show "entries s' (chunksKey key) = Some (toString (length chunks))"
    using fin wf by (simp add: chunksKey_ne_key chunkKey_ne_chunksKey[symmetric])
  show "\<forall>j < length chunks. entries s' (chunkKey key j) = Some (chunks ! j)"
    using fin wk by (simp add: chunkKey_ne_key)
  show "\<forall>j \<ge> length chunks. entries s' (chunkKey key j) = entries s (chunkKey key j)"
  proof (intro allI impI)
    fix j assume j: "length chunks \<le> j"
    then have "\<forall>j'. 0 \<le> j' \<and> j' < length chunks \<longrightarrow> chunkKey key j \<noteq> chunkKey key j'"
      by (auto simp: chunkKey_inj)
    with wf have "entries ?s2 (chunkKey key j) = entries ?s1 (chunkKey key j)" by blast
    then show "entries s' (chunkKey key j) = entries s (chunkKey key j)"
      using fin by (simp add: chunkKey_ne_key chunkKey_ne_chunksKey)
  qed
qed

lemma concat_nth_upt: "concat (map ((!) xs) [0..<length xs]) = concat xs"
  by (simp add: map_nth)

lemma chunked_roundtrip_core:
  assumes len: "2000 < length V"
    and ok: "fst (setItemAsync k V s) = Inr ()"
    and q: "quiet (snd (setItemAsync k V s))"
  shows "fst (getItemAsync k (snd (setItemAsync k V s))) = Some V"
proof -
  let ?s' = "snd (setItemAsync k V s)"
  let ?chunks = "makeChunks V 0 []"
  note eff = setItemAsync_chunked[OF len ok]
  have pc: "map (presentChunk ?s' k) [0..<length ?chunks] = map ((!) ?chunks) [0..<length ?chunks]"
    using eff(2) by (simp add: presentChunk_def)
  have "fst (getItemAsync k ?s') =
      Some (concat (map (presentChunk ?s' k) [0..<countOf (parseInt (toString (length ?chunks)))]))"
    by (rule getItemAsync_manifest[OF q eff(1) toString_nonempty])
  also have "\<dots> = Some (concat ?chunks)"
    by (simp add: parseInt_toString countOf_def pc concat_nth_upt)
  also have "\<dots> = Some V"
    by (simp add: concat_makeChunks)
  finally show ?thesis .
qed

subsection \<open>In a quiet store every call completes\<close>

lemma writeChunks_quiet: "quiet s \<Longrightarrow> fst (writeChunks key chunks i s) = Inr ()"
proof (induction key chunks i s rule: writeChunks.induct)
  case (1 key chunks i s)
  show ?case
  proof (cases "i < length chunks")
    case False
    then show ?thesis by (subst writeChunks.simps) simp
  next
    case True
    let ?s1 = "s\<lparr>entries := (entries s)(chunkKey key i \<mapsto> chunks ! i), calls := Suc (calls s)\<rparr>"
    have "quiet ?s1" using "1.prems" by (simp add: quiet_def)
    then have "fst (writeChunks key chunks (Suc i) ?s1) = Inr ()"
      by (rule "1.IH"[OF True])
    with True "1.prems" show ?thesis
      by (subst writeChunks.simps) (simp add: set_quiet andThen_Inr)
  qed
qed

lemma setItemAsync_quiet:
  assumes q: "quiet s"
  shows "fst (setItemAsync key v s) = Inr ()" and "quiet (snd (setItemAsync key v s))"
proof -
  show "quiet (snd (setItemAsync key v s))"
    using q later_setItemAsync by (rule quiet_later)
  show "fst (setItemAsync key v s) = Inr ()"
  proof (cases "2000 < length v")
    case True
    let ?chunks = "makeChunks v 0 []"
    let ?s1 = "s\<lparr>entries := (entries s)(chunksKey key \<mapsto> toString (length ?chunks)),
                calls := Suc (calls s)\<rparr>"
    have q1: "quiet ?s1" using q by (simp add: quiet_def)
    obtain s2 where w: "writeChunks key ?chunks 0 ?s1 = (Inr (), s2)"
      using writeChunks_quiet[OF q1, of key ?chunks 0]
      by (cases "writeChunks key ?chunks 0 ?s1") auto
    show ?thesis
      using True by (simp add: setItemAsync_def Let_def set_quiet[OF q] andThen_Inr w fst_ignoreErrors)
  next
    case False
    obtain s1 where d: "deleteChunks key s = (Inr (), s1)"
      using fst_ignoreErrors[of "andThen (SecureStore_getItemAsync (chunksKey key) s)
          (\<lambda>chunkInfo s'.
             if truthy chunkInfo then
               andThen (deleteChunkLoop key (parseInt (the chunkInfo)) 0 s')
                 (\<lambda>_ s''. SecureStore_deleteItemAsync (chunksKey key) s'')
             else (Inr (), s'))"]
      by (cases "deleteChunks key s") (auto simp: deleteChunks_def)
    have "later s s1" using later_deleteChunks[of s key] d by simp
    then have "quiet s1" using q quiet_later by blast
    then show ?thesis
      using False by (simp add: setItemAsync_def d andThen_Inr set_quiet)
  qed
qed

text \<open>
  C1. For every key \<open>k\<close>, every store \<open>s\<close> (whatever an earlier put left under
  \<open>k\<close>, chunked or not) and every value \<open>V\<close> longer than 2000: when
  \<open>setItemAsync k V\<close> has completed and the store does not throw afterwards,
  \<open>getItemAsync k\<close> returns exactly \<open>V\<close>. A length that is a multiple of 2000 is
  no special case.
\<close>

theorem chunked_roundtrip:
  assumes "2000 < length V"
    and "fst (setItemAsync k V s) = Inr ()"
    and "quiet (snd (setItemAsync k V s))"
  shows "fst (getItemAsync k (snd (setItemAsync k V s))) = Some V"
  using assms by (rule chunked_roundtrip_core)

text \<open>The round trip at a value of length 4000, written over a chunked value of length
  6001 under the same key.\<close>

theorem chunked_roundtrip_witness:
  "2000 < length (replicate 4000 CHR ''x'') \<and>
   fst (setItemAsync ''k'' (replicate 4000 CHR ''x'')
          (snd (setItemAsync ''k'' (replicate 6001 CHR ''y'') emptyStore))) = Inr () \<and>
   quiet (snd (setItemAsync ''k'' (replicate 4000 CHR ''x'')
          (snd (setItemAsync ''k'' (replicate 6001 CHR ''y'') emptyStore)))) \<and>
   fst (getItemAsync ''k'' (snd (setItemAsync ''k'' (replicate 4000 CHR ''x'')
          (snd (setItemAsync ''k'' (replicate 6001 CHR ''y'') emptyStore))))) =
     Some (replicate 4000 CHR ''x'')"
proof -
  have q0: "quiet emptyStore"
    by (simp add: quiet_def emptyStore_def)
  have q1: "quiet (snd (setItemAsync ''k'' (replicate 6001 CHR ''y'') emptyStore))"
    using q0 by (rule setItemAsync_quiet(2))
  have len: "2000 < length (replicate 4000 CHR ''x'')"
    by simp
  note ok = setItemAsync_quiet(1)[OF q1, of "''k''" "replicate 4000 CHR ''x''"]
  note q2 = setItemAsync_quiet(2)[OF q1, of "''k''" "replicate 4000 CHR ''x''"]
  show ?thesis
    using len ok q2 chunked_roundtrip[OF len ok q2] by blast
qed

section \<open>Proofs: reading a chunked value with chunks missing\<close>

text \<open>
  C9. When \<open>getItemAsync k\<close> finds a manifest (a truthy entry under \<open>k_chunks\<close>)
  and the store does not throw, it returns a string, never \<open>null\<close>: the concatenation,
  in index order, of the chunks \<open>k_chunk_0 .. k_chunk_(count-1)\<close> that are present.
  Missing chunks are skipped; with none present the result is the empty string.
\<close>

theorem getItemAsync_missing_chunks:
  assumes "quiet s" and "entries s (chunksKey k) = Some m" and "m \<noteq> []"
  shows "fst (getItemAsync k s) =
           Some (concat (List.map_filter (\<lambda>i. entries s (chunkKey k i)) [0..<countOf (parseInt m)]))"
  using getItemAsync_manifest[OF assms] by (simp add: presentChunks_map_filter)

lemma parseInt_3: "parseInt ''3'' = Some 3"
  by code_simp

lemma chunkKey_k:
  "chunkKey ''k'' 0 = ''k_chunk_0''"
  "chunkKey ''k'' (Suc 0) = ''k_chunk_1''"
  "chunkKey ''k'' 2 = ''k_chunk_2''"
  by code_simp+

theorem getItemAsync_missing_chunks_witness:
  "quiet gappedStore \<and> entries gappedStore (chunksKey ''k'') = Some ''3'' \<and> ''3'' \<noteq> [] \<and>
   fst (getItemAsync ''k'' gappedStore) = Some ''abcd''"
proof -
  have q: "quiet gappedStore"
    by (simp add: quiet_def gappedStore_def)
  have m: "entries gappedStore (chunksKey ''k'') = Some ''3''"
    by (simp add: gappedStore_def chunksKey_def)
  have ne: "''3'' \<noteq> []" by simp
  have upt: "[0..<3] = [0, Suc 0, 2]"
    by (simp add: upt_rec)
  have "concat (List.map_filter (\<lambda>i. entries gappedStore (chunkKey ''k'' i)) [0..<countOf (parseInt ''3'')])
      = ''abcd''"
    by (simp add: parseInt_3 countOf_def upt List.map_filter_simps chunkKey_k gappedStore_def)
  then show ?thesis
    using q m ne getItemAsync_missing_chunks[OF q m ne] by simp
qed

section \<open>Proofs: deletion\<close>

lemma ignore_delete_cases:
  "ignoreErrors (SecureStore_deleteItemAsync key s) = (Inr (), s\<lparr>calls := Suc (calls s)\<rparr>) \<or>
   ignoreErrors (SecureStore_deleteItemAsync key s) =
     (Inr (), s\<lparr>entries := (entries s)(key := None), calls := Suc (calls s)\<rparr>)"
  using delete_cases[of key s] by (auto simp: ignoreErrors_simp)

lemma deleteChunkLoop_frame:
  "(\<forall>j. i \<le> j \<and> j < countOf cc \<longrightarrow> x \<noteq> chunkKey key j) \<Longrightarrow>
   entries (snd (deleteChunkLoop key cc i s)) x = entries s x"
proof (induction key cc i s rule: deleteChunkLoop.induct)
  case (1 key cc i s)
  show ?case
  proof (cases "lessCount i cc")
    case False
    then show ?thesis by (subst deleteChunkLoop.simps) simp
  next
    case True
    then have xi: "x \<noteq> chunkKey key i"
      using "1.prems" by (simp add: lessCount_countOf)
    have rest: "\<forall>j. Suc i \<le> j \<and> j < countOf cc \<longrightarrow> x \<noteq> chunkKey key j"
      using "1.prems" by simp
    from ignore_delete_cases[of "chunkKey key i" s]
    obtain s1 where s1: "ignoreErrors (SecureStore_deleteItemAsync (chunkKey key i) s) = (Inr (), s1)"
      and e1: "entries s1 x = entries s x"
      using xi by auto
    have "deleteChunkLoop key cc i s = deleteChunkLoop key cc (Suc i) s1"
      using True by (subst deleteChunkLoop.simps) (simp add: s1 andThen_Inr)
    then show ?thesis
      using "1.IH"[OF True rest, of s1] e1 by simp
  qed
qed

lemma deleteChunkLoop_fst: "fst (deleteChunkLoop key cc i s) = Inr ()"
proof (induction key cc i s rule: deleteChunkLoop.induct)
  case (1 key cc i s)
  show ?case
  proof (cases "lessCount i cc")
    case False
    then show ?thesis by (subst deleteChunkLoop.simps) simp
  next
    case True
    from ignore_delete_cases[of "chunkKey key i" s]
    obtain s1 where s1: "ignoreErrors (SecureStore_deleteItemAsync (chunkKey key i) s) = (Inr (), s1)"
      by auto
    have "deleteChunkLoop key cc i s = deleteChunkLoop key cc (Suc i) s1"
      using True by (subst deleteChunkLoop.simps) (simp add: s1 andThen_Inr)
    then show ?thesis
      using "1.IH"[OF True, of s1] by simp
  qed
qed

lemma deleteChunkLoop_quiet:
  "quiet s \<Longrightarrow> i \<le> j \<Longrightarrow> j < countOf cc \<Longrightarrow>
   entries (snd (deleteChunkLoop key cc i s)) (chunkKey key j) = None"
proof (induction key cc i s rule: deleteChunkLoop.induct)
  case (1 key cc i s)
  have True: "lessCount i cc"
    using "1.prems" by (simp add: lessCount_countOf)
  let ?s1 = "s\<lparr>entries := (entries s)(chunkKey key i := None), calls := Suc (calls s)\<rparr>"
  have q1: "quiet ?s1" using "1.prems"(1) by (simp add: quiet_def)
  have step: "deleteChunkLoop key cc i s = deleteChunkLoop key cc (Suc i) ?s1"
    using True "1.prems"(1)
    by (subst deleteChunkLoop.simps) (simp add: delete_quiet ignoreErrors_simp andThen_Inr)
  show ?case
  proof (cases "j = i")
    case False
    then have "Suc i \<le> j" using "1.prems" by simp
    then show ?thesis
      using "1.IH"[OF True q1 _ "1.prems"(3)] step by simp
  next
    case eq: True
    have "\<forall>j'. Suc i \<le> j' \<and> j' < countOf cc \<longrightarrow> chunkKey key i \<noteq> chunkKey key j'"
      by (simp add: chunkKey_inj)
    then have "entries (snd (deleteChunkLoop key cc (Suc i) ?s1)) (chunkKey key i)
        = entries ?s1 (chunkKey key i)"
      by (rule deleteChunkLoop_frame)
    then show ?thesis using step eq by simp
  qed
qed

lemma deleteChunks_fst: "fst (deleteChunks key s) = Inr ()"
  by (simp add: deleteChunks_def fst_ignoreErrors)

lemma deleteChunks_frame:
  assumes x: "x \<noteq> chunksKey key"
    and xs: "\<forall>m. entries s (chunksKey key) = Some m \<longrightarrow>
               (\<forall>j < countOf (parseInt m). x \<noteq> chunkKey key j)"
  shows "entries (snd (deleteChunks key s)) x = entries s x"
proof (cases "faults s (calls s)")
  case True
  then show ?thesis
    by (simp add: deleteChunks_def SecureStore_getItemAsync_def andThen_Inl ignoreErrors_simp)
next
  case False
  let ?s1 = "s\<lparr>calls := Suc (calls s)\<rparr>"
  have g: "SecureStore_getItemAsync (chunksKey key) s = (Inr (entries s (chunksKey key)), ?s1)"
    using False by (simp add: SecureStore_getItemAsync_def)
  show ?thesis
  proof (cases "truthy (entries s (chunksKey key))")
    case False
    then show ?thesis
      by (simp add: deleteChunks_def g andThen_Inr ignoreErrors_simp)
  next
    case True
    then obtain m where m: "entries s (chunksKey key) = Some m"
      by (cases "entries s (chunksKey key)") (auto simp: truthy_def)
    obtain s2 where l: "deleteChunkLoop key (parseInt m) 0 ?s1 = (Inr (), s2)"
      using deleteChunkLoop_fst[of key "parseInt m" 0 ?s1]
      by (cases "deleteChunkLoop key (parseInt m) 0 ?s1") auto
    have "entries (snd (deleteChunkLoop key (parseInt m) 0 ?s1)) x = entries ?s1 x"
      using xs m by (intro deleteChunkLoop_frame) simp
    then have e2: "entries s2 x = entries s x"
      by (simp add: l)
    have unf: "deleteChunks key s = ignoreErrors (SecureStore_deleteItemAsync (chunksKey key) s2)"
      using True m by (simp add: deleteChunks_def g andThen_Inr l)
    show ?thesis
      using ignore_delete_cases[of "chunksKey key" s2] e2 x
      by (auto simp: unf)
  qed
qed

lemma deleteChunks_quiet:
  assumes q: "quiet s" and m: "entries s (chunksKey key) = Some m" and ne: "m \<noteq> []"
  shows "entries (snd (deleteChunks key s)) (chunksKey key) = None"
    and "\<forall>j < countOf (parseInt m). entries (snd (deleteChunks key s)) (chunkKey key j) = None"
proof -
  let ?s1 = "s\<lparr>calls := Suc (calls s)\<rparr>"
  have q1: "quiet ?s1" using q by (rule quiet_tick)
  obtain s2 where l: "deleteChunkLoop key (parseInt m) 0 ?s1 = (Inr (), s2)"
    using deleteChunkLoop_fst[of key "parseInt m" 0 ?s1]
    by (cases "deleteChunkLoop key (parseInt m) 0 ?s1") auto
  have "quiet (snd (deleteChunkLoop key (parseInt m) 0 ?s1))"
    using q1 later_deleteChunkLoop by (rule quiet_later)
  then have q2: "quiet s2" by (simp add: l)
  have t: "truthy (Some m)" using ne by (simp add: truthy_def)
  have unf: "snd (deleteChunks key s) =
      s2\<lparr>entries := (entries s2)(chunksKey key := None), calls := Suc (calls s2)\<rparr>"
    using t by (simp add: deleteChunks_def get_quiet[OF q] m andThen_Inr l delete_quiet[OF q2] ignoreErrors_simp)
  show "entries (snd (deleteChunks key s)) (chunksKey key) = None"
    by (simp add: unf)
  have "\<forall>j < countOf (parseInt m). entries (snd (deleteChunkLoop key (parseInt m) 0 ?s1)) (chunkKey key j) = None"
    using deleteChunkLoop_quiet[OF q1, of 0 _ "parseInt m" key] by simp
  then show "\<forall>j < countOf (parseInt m). entries (snd (deleteChunks key s)) (chunkKey key j) = None"
    by (simp add: unf l chunkKey_ne_chunksKey)
qed

subsection \<open>deleteItemAsync\<close>

lemma deleteItemAsync_fst: "\<not> faults s (calls s) \<Longrightarrow> fst (deleteItemAsync key s) = Inr ()"
  by (simp add: deleteItemAsync_def SecureStore_deleteItemAsync_def andThen_Inr deleteChunks_fst)

lemma deleteItemAsync_frame:
  assumes x: "x \<noteq> key" "x \<noteq> chunksKey key"
    and xs: "\<forall>m. entries s (chunksKey key) = Some m \<longrightarrow>
               (\<forall>j < countOf (parseInt m). x \<noteq> chunkKey key j)"
  shows "entries (snd (deleteItemAsync key s)) x = entries s x"
proof -
  from delete_cases[of key s]
  show ?thesis
  proof
    assume "SecureStore_deleteItemAsync key s = (Inl StoreFailure, s\<lparr>calls := Suc (calls s)\<rparr>)"
    then show ?thesis by (simp add: deleteItemAsync_def andThen_Inl)
  next
    let ?s1 = "s\<lparr>entries := (entries s)(key := None), calls := Suc (calls s)\<rparr>"
    assume d: "SecureStore_deleteItemAsync key s = (Inr (), ?s1)"
    have "entries (snd (deleteChunks key ?s1)) x = entries ?s1 x"
      using x xs by (intro deleteChunks_frame) (simp_all add: chunksKey_ne_key)
    then show ?thesis
      using x by (simp add: deleteItemAsync_def d andThen_Inr)
  qed
qed

lemma deleteItemAsync_quiet:
  assumes q: "quiet s" and m: "entries s (chunksKey key) = Some m" and ne: "m \<noteq> []"
  shows "entries (snd (deleteItemAsync key s)) key = None"
    and "entries (snd (deleteItemAsync key s)) (chunksKey key) = None"
    and "\<forall>j < countOf (parseInt m). entries (snd (deleteItemAsync key s)) (chunkKey key j) = None"
proof -
  let ?s1 = "s\<lparr>entries := (entries s)(key := None), calls := Suc (calls s)\<rparr>"
  have q1: "quiet ?s1" using q by (simp add: quiet_def)
  have m1: "entries ?s1 (chunksKey key) = Some m"
    using m by (simp add: chunksKey_ne_key)
  have unf: "deleteItemAsync key s = deleteChunks key ?s1"
    by (simp add: deleteItemAsync_def delete_quiet[OF q] andThen_Inr)
  have "entries (snd (deleteChunks key ?s1)) key = entries ?s1 key"
    by (rule deleteChunks_frame) (simp_all add: chunksKey_ne_key[symmetric] chunkKey_ne_key[symmetric])
  then show "entries (snd (deleteItemAsync key s)) key = None"
    by (simp add: unf)
  show "entries (snd (deleteItemAsync key s)) (chunksKey key) = None"
    unfolding unf by (rule deleteChunks_quiet(1)[OF q1 m1 ne])
  show "\<forall>j < countOf (parseInt m). entries (snd (deleteItemAsync key s)) (chunkKey key j) = None"
    unfolding unf by (rule deleteChunks_quiet(2)[OF q1 m1 ne])
qed

lemma makeChunks_4001:
  "makeChunks (replicate 4001 c) 0 [] = [replicate 2000 c, replicate 2000 c, [c]]"
  by (simp add: makeChunks.simps slice_def chunkSize_def)

lemma makeChunks_2001:
  "makeChunks (replicate 2001 c) 0 [] = [replicate 2000 c, [c]]"
  by (simp add: makeChunks.simps slice_def chunkSize_def)

text \<open>
  What \<open>deleteItemAsync\<close> after a chunked \<open>setItemAsync\<close> never touches: the chunk
  entries at an index from the chunk count of the value on. They are what an earlier,
  longer value left behind, and they stay.
\<close>

lemma put_delete_keeps_surplus_chunks:
  assumes len: "2000 < length V" and ok: "fst (setItemAsync k V s) = Inr ()"
    and j: "length (makeChunks V 0 []) \<le> j"
  shows "entries (snd (deleteItemAsync k (snd (setItemAsync k V s)))) (chunkKey k j)
           = entries s (chunkKey k j)"
proof -
  let ?s' = "snd (setItemAsync k V s)"
  note eff = setItemAsync_chunked[OF len ok]
  have "entries (snd (deleteItemAsync k ?s')) (chunkKey k j) = entries ?s' (chunkKey k j)"
  proof (rule deleteItemAsync_frame)
    show "chunkKey k j \<noteq> k" by (rule chunkKey_ne_key)
    show "chunkKey k j \<noteq> chunksKey k" by (rule chunkKey_ne_chunksKey)
    show "\<forall>m. entries ?s' (chunksKey k) = Some m \<longrightarrow>
            (\<forall>j' < countOf (parseInt m). chunkKey k j \<noteq> chunkKey k j')"
      using j by (auto simp: eff(1) parseInt_toString countOf_def chunkKey_inj)
  qed
  also have "\<dots> = entries s (chunkKey k j)"
    using eff(3) j by simp
  finally show ?thesis .
qed

text \<open>
  C7, at a concrete input. In a store that never throws, a value of length 4001 is put
  under \<open>k\<close> (three chunks), then a value of length 2001 (two chunks), then \<open>k\<close> is
  deleted. The deletion completes, and the entry \<open>k_chunk_2\<close> of the first value is
  still in the store.
\<close>

theorem deleteItemAsync_leaves_surplus_chunk:
  "fst (deleteItemAsync ''k''
         (snd (setItemAsync ''k'' (replicate 2001 CHR ''b'')
           (snd (setItemAsync ''k'' (replicate 4001 CHR ''a'') emptyStore))))) = Inr () \<and>
   entries (snd (deleteItemAsync ''k''
         (snd (setItemAsync ''k'' (replicate 2001 CHR ''b'')
           (snd (setItemAsync ''k'' (replicate 4001 CHR ''a'') emptyStore))))))
     ''k_chunk_2'' = Some ''a''"
proof -
  let ?s1 = "snd (setItemAsync ''k'' (replicate 4001 CHR ''a'') emptyStore)"
  let ?s2 = "snd (setItemAsync ''k'' (replicate 2001 CHR ''b'') ?s1)"
  have q0: "quiet emptyStore" by (simp add: quiet_def emptyStore_def)
  have q1: "quiet ?s1" using q0 by (rule setItemAsync_quiet(2))
  have q2: "quiet ?s2" using q1 by (rule setItemAsync_quiet(2))
  have ok1: "fst (setItemAsync ''k'' (replicate 4001 CHR ''a'') emptyStore) = Inr ()"
    using q0 by (rule setItemAsync_quiet(1))
  have ok2: "fst (setItemAsync ''k'' (replicate 2001 CHR ''b'') ?s1) = Inr ()"
    using q1 by (rule setItemAsync_quiet(1))
  have key: "chunkKey ''k'' 2 = ''k_chunk_2''" by code_simp
  have "entries ?s1 (chunkKey ''k'' 2) = Some (makeChunks (replicate 4001 CHR ''a'') 0 [] ! 2)"
    using setItemAsync_chunked(2)[OF _ ok1] by (simp add: makeChunks_4001)
  then have e1: "entries ?s1 (chunkKey ''k'' 2) = Some ''a''"
    by (simp add: makeChunks_4001)
  have "entries (snd (deleteItemAsync ''k'' ?s2)) (chunkKey ''k'' 2) = entries ?s1 (chunkKey ''k'' 2)"
    by (rule put_delete_keeps_surplus_chunks[OF _ ok2]) (simp_all add: makeChunks_2001)
  with e1 have "entries (snd (deleteItemAsync ''k'' ?s2)) ''k_chunk_2'' = Some ''a''"
    by (simp add: key)
  moreover have "fst (deleteItemAsync ''k'' ?s2) = Inr ()"
    using q2 by (intro deleteItemAsync_fst quiet_now)
  ultimately show ?thesis by blast
qed

section \<open>Proofs: compliance statistics and upload progress\<close>

subsection \<open>The arithmetic of the percentage\<close>

lemma roundToDouble_0: "roundToDouble 0 = 0"
  by (simp add: roundToDouble_def roundPositive_def normalise.simps)

lemma percentage_none: "jsMultiply (jsDivide 0 n) 100 = 0"
  by (simp add: jsMultiply_def jsDivide_def roundToDouble_0)

lemma roundToDouble_1: "roundToDouble 1 = 1"
  by code_simp

lemma roundToDouble_100: "roundToDouble 100 = 100"
  by code_simp

lemma percentage_all: "n \<noteq> 0 \<Longrightarrow> jsMultiply (jsDivide n n) 100 = 100"
  by (simp add: jsMultiply_def jsDivide_def roundToDouble_1 roundToDouble_100)

text \<open>7 of 25: the quotient rounds to \<open>0.28000000000000003\<close> and the product to
  \<open>28.000000000000004\<close>, the double next above 28; taking the product first gives 28.\<close>

lemma percentage_7_of_25:
  "jsDivide 7 25 = 1261007895663739 / 2 ^ 52"
  "jsMultiply (jsDivide 7 25) 100 = 28 + 1 / 2 ^ 48"
  "jsDivide (jsMultiply 7 100) 25 = 28"
  by code_simp+

text \<open>1 of 3: \<open>33.33333333333333\<close>, the double below the third of 100.\<close>

lemma percentage_1_of_3:
  "jsMultiply (jsDivide 1 3) 100 = 2345624805922133 / 2 ^ 46"
  by code_simp

subsection \<open>The statistics\<close>






text \<open>A term with an expert override of false is not compliant, although the user
  confirmed and the reviewed suggestion is valid.\<close>

lemma complianceStats_expert_override_wins:
  "complianceStats (Some [t\<lparr>expert_override_is_valid_sharia := Some False,
                            isUserConfirmed := Some True,
                            isReviewedSuggestionValid := Some True\<rparr>])
   = Some \<lparr>totalTerms = 1, currentUserEffectiveCompliantCount = 0,
           currentUserEffectiveNonCompliantCount = 1, overallCompliancePercentage = 0,
           expertReviewedTerms = (if has_expert_feedback t = Some True then 1 else 0),
           userModifiedTerms = 1\<rparr>"
  by (simp add: complianceStats_def nullish_def truthyFlag_def percentage_none split: option.splits)

text \<open>25 terms, 7 of them valid, none reviewed: 7 are compliant, 18 are not, and the
  percentage is \<open>28.000000000000004\<close>.\<close>

lemma complianceStats_7_of_25:
  "complianceStats (Some (replicate 7 (sampleTerm\<lparr>is_valid_sharia := True\<rparr>) @ replicate 18 sampleTerm))
   = Some \<lparr>totalTerms = 25, currentUserEffectiveCompliantCount = 7,
           currentUserEffectiveNonCompliantCount = 18,
           overallCompliancePercentage = 28 + 1 / 2 ^ 48,
           expertReviewedTerms = 0, userModifiedTerms = 0\<rparr>"
  by (simp add: complianceStats_def nullish_def truthyFlag_def sampleTerm_def percentage_7_of_25(2))

lemma complianceStats_empty:
  "complianceStats (Some []) = Some \<lparr>totalTerms = 0, currentUserEffectiveCompliantCount = 0,
     currentUserEffectiveNonCompliantCount = 0, overallCompliancePercentage = 0,
     expertReviewedTerms = 0, userModifiedTerms = 0\<rparr>"
  by (simp add: complianceStats_def)

text \<open>What does hold of a tick, for \<open>0 \<le> r < 1\<close>: the value stays below 100, and
  below 90 it does not decrease.\<close>

lemma progressTick_below_100:
  "0 \<le> r \<Longrightarrow> r < 1 \<Longrightarrow> p < 100 \<Longrightarrow> progressTick p r < 100"
  by (simp add: progressTick_def)

lemma progressTick_increases_below_90:
  "0 \<le> r \<Longrightarrow> p < 90 \<Longrightarrow> p \<le> progressTick p r"
  by (simp add: progressTick_def)

text \<open>
  C4, at a concrete input. Nine ticks with \<open>Math.random() = 0.9375\<close> take the progress
  from 0 to 84.375; the tenth takes it to 93.75, above the ceiling of 90; the eleventh
  sets it to 90, below the value before.
\<close>

theorem progress_overshoots_ceiling:
  "foldl progressTick 0 (replicate 9 (15/16)) = 675/8 \<and>
   progressTick (675/8) (15/16) = 375/4 \<and> (90::rat) < 375/4 \<and>
   progressTick (375/4) (15/16) = 90 \<and> progressTick (375/4) (15/16) < 375/4"
  by (simp add: progressTick_def numeral_eq_Suc)

section \<open>Proofs: the session context\<close>

subsection \<open>The unchunked branch and the round trip in a quiet store\<close>

lemma later_readChunks: "later s (snd (readChunks key cc i acc s))"
proof (induction key cc i acc s rule: readChunks.induct)
  case (1 key cc i acc s)
  show ?case
  proof (cases "lessCount i cc")
    case False
    then show ?thesis by (subst readChunks.simps) (simp add: later_refl)
  next
    case True
    have "later s (snd (andThen (SecureStore_getItemAsync (chunkKey key i) s)
          (\<lambda>chunk s'. readChunks key cc (Suc i)
             (if truthy chunk then acc @ the chunk else acc) s')))"
      by (rule later_andThen[OF later_get]) (rule "1.IH"[OF True])
    with True show ?thesis by (subst readChunks.simps) simp
  qed
qed

lemma later_getItemAsync: "later s (snd (getItemAsync key s))"
proof -
  let ?m = "andThen (SecureStore_getItemAsync (chunksKey key) s)
             (\<lambda>chunkInfo s'.
                if truthy chunkInfo then
                  andThen (readChunks key (parseInt (the chunkInfo)) 0 [] s')
                    (\<lambda>reconstructed s''. (Inr (Some reconstructed), s''))
                else SecureStore_getItemAsync key s')"
  have "later s (snd ?m)"
    by (intro later_andThen later_get)
       (auto simp: later_refl intro!: later_andThen later_readChunks later_get)
  moreover have "snd (getItemAsync key s) = snd ?m"
    by (cases ?m; cases "fst ?m") (auto simp: getItemAsync_def)
  ultimately show ?thesis by simp
qed

lemma deleteChunks_quiet_falsy:
  assumes q: "quiet s"
  shows "\<not> truthy (entries (snd (deleteChunks key s)) (chunksKey key))"
proof (cases "truthy (entries s (chunksKey key))")
  case True
  then obtain m where m: "entries s (chunksKey key) = Some m" "m \<noteq> []"
    by (cases "entries s (chunksKey key)") (auto simp: truthy_def)
  show ?thesis
    using deleteChunks_quiet(1)[OF q m] by (simp add: truthy_def)
next
  case False
  then show ?thesis
    by (simp add: deleteChunks_def get_quiet[OF q] andThen_Inr ignoreErrors_simp)
qed

lemma setItemAsync_direct_quiet:
  assumes q: "quiet s" and len: "\<not> 2000 < length v"
  shows "entries (snd (setItemAsync key v s)) key = Some v"
    and "\<not> truthy (entries (snd (setItemAsync key v s)) (chunksKey key))"
proof -
  obtain s1 where d: "deleteChunks key s = (Inr (), s1)"
    using deleteChunks_fst[of key s] by (cases "deleteChunks key s") auto
  have "quiet (snd (deleteChunks key s))"
    using q later_deleteChunks by (rule quiet_later)
  then have q1: "quiet s1" by (simp add: d)
  have "\<not> truthy (entries (snd (deleteChunks key s)) (chunksKey key))"
    by (rule deleteChunks_quiet_falsy[OF q])
  then have f1: "\<not> truthy (entries s1 (chunksKey key))" by (simp add: d)
  have unf: "snd (setItemAsync key v s) =
      s1\<lparr>entries := (entries s1)(key \<mapsto> v), calls := Suc (calls s1)\<rparr>"
    using len by (simp add: setItemAsync_def d andThen_Inr set_quiet[OF q1])
  show "entries (snd (setItemAsync key v s)) key = Some v"
    by (simp add: unf)
  show "\<not> truthy (entries (snd (setItemAsync key v s)) (chunksKey key))"
    using f1 by (simp add: unf chunksKey_ne_key)
qed

lemma roundtrip_quiet:
  assumes q: "quiet s"
  shows "fst (getItemAsync key (snd (setItemAsync key v s))) = Some v"
proof (cases "2000 < length v")
  case True
  show ?thesis
    by (rule chunked_roundtrip_core[OF True setItemAsync_quiet[OF q]])
next
  case False
  have "fst (getItemAsync key (snd (setItemAsync key v s))) = entries (snd (setItemAsync key v s)) key"
    by (rule getItemAsync_direct[OF setItemAsync_quiet(2)[OF q] setItemAsync_direct_quiet(2)[OF q False]])
  then show ?thesis
    by (simp add: setItemAsync_direct_quiet(1)[OF q False])
qed

text \<open>
  C10. \<open>addInteraction\<close> called while \<open>sessionId\<close> is null returns the state as it
  was: no interaction is created, the list of interactions is the same, and the store
  is the same (no call is made on it).
\<close>

theorem addInteraction_without_session:
  "sessionId r = None \<Longrightarrow> addInteraction env r interaction s = s"
  by (simp add: addInteraction_def truthy_def)

theorem addInteraction_without_session_witness:
  "sessionId initialState = None \<and>
   addInteraction offlineEnv initialState
     \<lparr>in_type = question_asked, in_termId = None, in_data = JNull\<rparr> initialState = initialState"
proof -
  have h: "sessionId initialState = None"
    by (simp add: initialState_def)
  show ?thesis
    using h addInteraction_without_session[OF h] by simp
qed

text \<open>
  C8. For a term identifier that is not in the current term list (or when there is no
  term list), \<open>askQuestionAboutTerm\<close> returns null and the state as it was: the map
  \<open>isTermProcessing\<close>, the term list, the interactions and everything else are
  unchanged, and no request is sent.
\<close>

theorem askQuestionAboutTerm_unknown_term:
  "termId \<notin> set (map term_id (case analysisTerms s of None \<Rightarrow> [] | Some terms \<Rightarrow> terms)) \<Longrightarrow>
   askQuestionAboutTerm env termId question s = (None, s)"
proof -
  assume a: "termId \<notin> set (map term_id (case analysisTerms s of None \<Rightarrow> [] | Some terms \<Rightarrow> terms))"
  show ?thesis
  proof (cases "analysisTerms s")
    case None
    then show ?thesis by (simp add: askQuestionAboutTerm_def)
  next
    case (Some terms)
    with a have "find (\<lambda>t. term_id t = termId) terms = None"
      by (auto simp: find_None_iff)
    with Some show ?thesis by (simp add: askQuestionAboutTerm_def)
  qed
qed

theorem askQuestionAboutTerm_unknown_term_witness:
  "''t2'' \<notin> set (map term_id (case analysisTerms readyState of None \<Rightarrow> [] | Some terms \<Rightarrow> terms)) \<and>
   askQuestionAboutTerm offlineEnv ''t2'' ''Is this clause valid?'' readyState = (None, readyState)"
proof -
  have h: "''t2'' \<notin> set (map term_id (case analysisTerms readyState of None \<Rightarrow> [] | Some terms \<Rightarrow> terms))"
    by (simp add: readyState_def sampleTerm_def)
  show ?thesis
    using h askQuestionAboutTerm_unknown_term[OF h] by simp
qed

lemma apiCalls_clearSession: "apiCalls (clearSession s) = apiCalls s"
  by (simp add: clearSession_def Let_def)

lemma not_includes_400:
  "\<not> includes_str ''Invalid file: missing name'' ''400''"
  "\<not> includes_str ''Invalid file: missing name'' ''413''"
  "\<not> includes_str ''Invalid file: missing type'' ''400''"
  "\<not> includes_str ''Invalid file: missing type'' ''413''"
  by simp_all

text \<open>
  C6. For a file without a name, or with a name and without a type,
  \<open>uploadAndAnalyzeContract\<close> returns null, the upload error is the message of the
  failed validation (\<open>Invalid file: missing name\<close>, \<open>Invalid file: missing type\<close>), and
  no call is made on the API client.
\<close>

theorem upload_rejects_invalid_file:
  "\<not> truthy (name file) \<or> \<not> truthy (type file) \<Longrightarrow>
   fst (uploadAndAnalyzeContract env file s) = None \<and>
   uploadError (snd (uploadAndAnalyzeContract env file s)) =
     Some (if \<not> truthy (name file) then ''Invalid file: missing name''
           else ''Invalid file: missing type'') \<and>
   apiCalls (snd (uploadAndAnalyzeContract env file s)) = apiCalls s"
  by (auto simp: uploadAndAnalyzeContract_def Let_def errorMessage_def apiCalls_clearSession
       simp del: includes_str.simps simp: not_includes_400)

theorem upload_rejects_invalid_file_witness:
  "\<not> truthy (name \<lparr>name = None, type = Some ''application/pdf'', uri = None\<rparr>) \<and>
   fst (uploadAndAnalyzeContract offlineEnv
          \<lparr>name = None, type = Some ''application/pdf'', uri = None\<rparr> initialState) = None \<and>
   uploadError (snd (uploadAndAnalyzeContract offlineEnv
          \<lparr>name = None, type = Some ''application/pdf'', uri = None\<rparr> initialState)) =
     Some ''Invalid file: missing name'' \<and>
   apiCalls (snd (uploadAndAnalyzeContract offlineEnv
          \<lparr>name = None, type = Some ''application/pdf'', uri = None\<rparr> initialState)) = [] \<and>
   \<not> truthy (type \<lparr>name = Some ''contract.pdf'', type = None, uri = None\<rparr>) \<and>
   fst (uploadAndAnalyzeContract offlineEnv
          \<lparr>name = Some ''contract.pdf'', type = None, uri = None\<rparr> initialState) = None \<and>
   uploadError (snd (uploadAndAnalyzeContract offlineEnv
          \<lparr>name = Some ''contract.pdf'', type = None, uri = None\<rparr> initialState)) =
     Some ''Invalid file: missing type'' \<and>
   apiCalls (snd (uploadAndAnalyzeContract offlineEnv
          \<lparr>name = Some ''contract.pdf'', type = None, uri = None\<rparr> initialState)) = []"
proof -
  let ?f1 = "\<lparr>name = None, type = Some ''application/pdf'', uri = None\<rparr>"
  let ?f2 = "\<lparr>name = Some ''contract.pdf'', type = None, uri = None\<rparr>"
  have h1: "\<not> truthy (name ?f1) \<or> \<not> truthy (type ?f1)"
    by (simp add: truthy_def)
  have h2: "\<not> truthy (name ?f2) \<or> \<not> truthy (type ?f2)"
    by (simp add: truthy_def)
  have n1: "\<not> truthy (name ?f1)" by (simp add: truthy_def)
  have n2: "truthy (name ?f2)" by (simp add: truthy_def)
  have a: "apiCalls initialState = []" by (simp add: initialState_def)
  show ?thesis
    using h1 h2 upload_rejects_invalid_file[OF h1, of offlineEnv initialState]
      upload_rejects_invalid_file[OF h2, of offlineEnv initialState] n1 n2 a
    by (simp del: includes_str.simps)
qed

section \<open>Proofs: the local session list\<close>

lemma thenT_Inr: "thenT (Inr x) f = f x"
  by (simp add: thenT_def)

lemma thenT_Inl: "thenT (Inl e) f = Inl e"
  by (simp add: thenT_def)

lemma thenT_eq_Inr: "thenT m f = Inr y \<Longrightarrow> \<exists>x. m = Inr x \<and> f x = Inr y"
  by (cases m) (simp_all add: thenT_def)

lemma mapT_Inr:
  "mapT f xs = Inr ys \<Longrightarrow> length ys = length xs \<and> (\<forall>i < length xs. f (xs ! i) = Inr (ys ! i))"
proof (induction xs arbitrary: ys)
  case Nil
  then show ?case by simp
next
  case (Cons x xs)
  from Cons.prems have "thenT (f x) (\<lambda>y. thenT (mapT f xs) (\<lambda>ys'. Inr (y # ys'))) = Inr ys"
    by simp
  then obtain y where y: "f x = Inr y"
    and r: "thenT (mapT f xs) (\<lambda>ys'. Inr (y # ys')) = Inr ys"
    by (blast dest: thenT_eq_Inr)
  from thenT_eq_Inr[OF r] obtain ys' where ys': "mapT f xs = Inr ys'" and ys: "ys = y # ys'"
    by auto
  from Cons.IH[OF ys'] have ih: "length ys' = length xs" "\<forall>i < length xs. f (xs ! i) = Inr (ys' ! i)"
    by simp_all
  show ?case
  proof (intro conjI allI impI)
    show "length ys = length (x # xs)" using ih ys by simp
    fix i assume "i < length (x # xs)"
    then show "f ((x # xs) ! i) = Inr (ys ! i)"
      using y ih ys by (cases i) simp_all
  qed
qed

lemma minimalSession_shape:
  assumes "minimalSession x = Inr y"
  shows "objectKeys y = minimalKeys" and "sessionIdOf y = sessionIdOf x"
proof -
  from assms obtain a b c d e f where
    a: "getProp x ''session_id'' = Inr a" and
    y: "y = JObj [(''session_id'', a), (''original_filename'', b), (''analysis_timestamp'', c),
                  (''compliance_percentage'', d), (''totalInteractions'', e),
                  (''lastInteractionTime'', f)]"
    unfolding minimalSession_def
    by (auto dest!: thenT_eq_Inr)
  show "objectKeys y = minimalKeys"
    by (simp add: y objectKeys_def minimalKeys_def)
  have "sessionIdOf y = a"
    by (simp add: y sessionIdOf_def getProp_def)
  moreover have "sessionIdOf x = a"
    by (simp add: sessionIdOf_def a)
  ultimately show "sessionIdOf y = sessionIdOf x" by simp
qed

lemma mapT_minimalSession:
  assumes "mapT minimalSession xs = Inr ys"
  shows "length ys = length xs"
    and "\<forall>y \<in> set ys. objectKeys y = minimalKeys"
    and "map sessionIdOf ys = map sessionIdOf xs"
proof -
  note m = mapT_Inr[OF assms]
  show len: "length ys = length xs" using m by simp
  show "\<forall>y \<in> set ys. objectKeys y = minimalKeys"
  proof
    fix y assume "y \<in> set ys"
    then obtain i where i: "i < length ys" "y = ys ! i"
      by (auto simp: in_set_conv_nth)
    then have "minimalSession (xs ! i) = Inr y" using m by simp
    then show "objectKeys y = minimalKeys" by (rule minimalSession_shape(1))
  qed
  show "map sessionIdOf ys = map sessionIdOf xs"
  proof (rule nth_equalityI)
    show "length (map sessionIdOf ys) = length (map sessionIdOf xs)" using len by simp
    fix i assume "i < length (map sessionIdOf ys)"
    then have i: "i < length xs" using len by simp
    then have "minimalSession (xs ! i) = Inr (ys ! i)" using m by simp
    then have "sessionIdOf (ys ! i) = sessionIdOf (xs ! i)" by (rule minimalSession_shape(2))
    then show "map sessionIdOf ys ! i = map sessionIdOf xs ! i" using i len by simp
  qed
qed

lemma minimalSession_projection:
  assumes "minimalSession x = Inr y"
  shows "y = minimalProjection x"
proof (cases x)
  case (JObj ps)
  have g: "getProp (JObj ps) k = Inr (propertyOf (JObj ps) k)" for k
    by (simp add: getProp_def propertyOf_def)
  have h: "hasProp k (JObj ps) = Inr (hasProperty (JObj ps) k)" for k
    by (simp add: hasProp_def hasProperty_def)
  have "minimalSession x = Inr (minimalProjection x)"
    unfolding JObj minimalSession_def minimalProjection_def g h thenT_Inr
    by (cases "hasProperty (JObj ps) ''totalInteractions''";
        cases "hasProperty (JObj ps) ''lastInteractionTime''")
       (simp_all add: thenT_Inr g)
  with assms show ?thesis by simp
qed (use assms in \<open>auto simp: minimalSession_def getProp_def hasProp_def thenT_Inr thenT_Inl
      minimalProjection_def propertyOf_def hasProperty_def\<close>)

lemma mapT_minimalSession_projection:
  assumes "mapT minimalSession xs = Inr ys"
  shows "ys = map minimalProjection xs"
proof (rule nth_equalityI)
  note m = mapT_Inr[OF assms]
  show "length ys = length (map minimalProjection xs)" using m by simp
  fix i assume "i < length ys"
  then have i: "i < length xs" using m by simp
  then have "minimalSession (xs ! i) = Inr (ys ! i)" using m by simp
  then have "ys ! i = minimalProjection (xs ! i)" by (rule minimalSession_projection)
  then show "ys ! i = map minimalProjection xs ! i" using i by simp
qed

lemma objectKeys_minimalProjection: "objectKeys (minimalProjection x) = minimalKeys"
  by (simp add: minimalProjection_def objectKeys_def minimalKeys_def)

lemma persistedSessions_Inr:
  assumes "persistedSessions upd = Inr ys"
  shows "length ys = length upd" and "map sessionIdOf ys = map sessionIdOf upd"
    and "ys = upd \<or> mapT minimalSession upd = Inr ys"
  using assms mapT_minimalSession[of upd ys]
  by (auto simp: persistedSessions_def split: if_splits)

subsection \<open>The list after the upsert\<close>

lemma length_updatedSessions: "length (updatedSessions sessions idx opt) \<le> 20"
  by (simp add: updatedSessions_def)

lemma updatedSessions_new_full:
  "length sessions = 20 \<Longrightarrow> updatedSessions sessions None opt = opt # butlast sessions"
  by (simp add: updatedSessions_def butlast_conv_take numeral_eq_Suc)

lemma updatedSessions_existing:
  "length sessions \<le> 20 \<Longrightarrow> updatedSessions sessions (Some i) opt = sessions[i := opt]"
  by (simp add: updatedSessions_def)

lemma findIndexOf_None:
  "findIndexOf xs sid i = Inr None \<Longrightarrow> JStr sid \<notin> set (map sessionIdOf xs)"
proof (induction xs arbitrary: i)
  case Nil
  then show ?case by simp
next
  case (Cons x xs)
  from Cons.prems obtain v where v: "getProp x ''session_id'' = Inr v"
    and r: "(if v = JStr sid then Inr (Some i) else findIndexOf xs sid (Suc i)) = Inr None"
    by (auto dest!: thenT_eq_Inr)
  from r have ne: "v \<noteq> JStr sid" and rest: "findIndexOf xs sid (Suc i) = Inr None"
    by (auto split: if_splits)
  show ?case
    using Cons.IH[OF rest] ne v by (simp add: sessionIdOf_def)
qed

lemma findIndexOf_Some:
  "findIndexOf xs sid i = Inr (Some j) \<Longrightarrow>
   i \<le> j \<and> j - i < length xs \<and> sessionIdOf (xs ! (j - i)) = JStr sid \<and>
   JStr sid \<notin> set (map sessionIdOf (take (j - i) xs))"
proof (induction xs arbitrary: i)
  case Nil
  then show ?case by simp
next
  case (Cons x xs)
  from Cons.prems obtain v where v: "getProp x ''session_id'' = Inr v"
    and r: "(if v = JStr sid then Inr (Some i) else findIndexOf xs sid (Suc i)) = Inr (Some j)"
    by (auto dest!: thenT_eq_Inr)
  show ?case
  proof (cases "v = JStr sid")
    case True
    with r have "j = i" by simp
    with True v show ?thesis by (simp add: sessionIdOf_def)
  next
    case False
    with r have rest: "findIndexOf xs sid (Suc i) = Inr (Some j)" by simp
    from Cons.IH[OF rest] have ih: "Suc i \<le> j" "j - Suc i < length xs"
      "sessionIdOf (xs ! (j - Suc i)) = JStr sid"
      "JStr sid \<notin> set (map sessionIdOf (take (j - Suc i) xs))"
      by simp_all
    have ji: "j - i = Suc (j - Suc i)" using ih(1) by simp
    show ?thesis
      using ih False v by (simp add: ji sessionIdOf_def)
  qed
qed

lemma optimizedSessionData_id:
  "optimizedSessionData env r d = Inr opt \<Longrightarrow> sessionIdOf opt = JStr (session_id d)"
  by (auto simp: optimizedSessionData_def Let_def sessionIdOf_def getProp_def dest!: thenT_eq_Inr)

subsection \<open>What saveSessionLocally leaves under the sessions key\<close>

lemma getLocalSessions_storage:
  "storage (snd (getLocalSessions env s)) = snd (getItemAsync SHARIAA_SESSIONS (storage s))"
  by (simp add: getLocalSessions_def Let_def split: prod.splits option.splits)

lemma saveSessionLocally_persists:
  assumes q: "quiet (storage s)"
    and p: "sessionsPayload env r d (fst (getLocalSessions env s)) = Inr payload"
  shows "fst (getItemAsync SHARIAA_SESSIONS (storage (saveSessionLocally env r d s))) = Some payload"
proof -
  obtain stored s1 where g: "getLocalSessions env s = (stored, s1)"
    by (cases "getLocalSessions env s") auto
  have "storage s1 = snd (getItemAsync SHARIAA_SESSIONS (storage s))"
    using getLocalSessions_storage[of env s] g by simp
  then have q1: "quiet (storage s1)"
    using q later_getItemAsync[of "storage s" SHARIAA_SESSIONS] by (simp add: quiet_later)
  have "saveSessionLocally env r d s =
      s1\<lparr>storage := snd (setItemAsync SHARIAA_SESSIONS payload (storage s1))\<rparr>"
    using p g by (simp add: saveSessionLocally_def)
  then show ?thesis
    by (simp add: roundtrip_quiet[OF q1])
qed

lemma sessionsPayload_array:
  assumes "findIndexOf sessions (session_id d) 0 = Inr idx"
    and "optimizedSessionData env r d = Inr opt"
  shows "sessionsPayload env r d (JArr sessions) =
           thenT (persistedSessions (updatedSessions sessions idx opt))
             (\<lambda>ys. Inr (stringify (JArr ys)))"
  using assms by (simp add: sessionsPayload_def thenT_Inr Let_def persistedSessions_def)

lemma saveSessionLocally_tiers_core:
  assumes q: "quiet (storage s)"
    and l: "fst (getLocalSessions env s) = JArr sessions"
    and f: "findIndexOf sessions (session_id d) 0 = Inr idx"
    and o: "optimizedSessionData env r d = Inr opt"
    and m: "2000 < length (stringify (JArr (updatedSessions sessions idx opt))) \<Longrightarrow>
            mapT minimalSession (updatedSessions sessions idx opt) = Inr mins"
  shows "fst (getItemAsync SHARIAA_SESSIONS (storage (saveSessionLocally env r d s))) =
           Some (if 2000 < length (stringify (JArr (updatedSessions sessions idx opt)))
                 then stringify (JArr (map minimalProjection (updatedSessions sessions idx opt)))
                 else stringify (JArr (updatedSessions sessions idx opt)))"
proof -
  let ?upd = "updatedSessions sessions idx opt"
  have p: "sessionsPayload env r d (fst (getLocalSessions env s)) =
      Inr (if 2000 < length (stringify (JArr ?upd)) then stringify (JArr (map minimalProjection ?upd))
           else stringify (JArr ?upd))"
  proof (cases "2000 < length (stringify (JArr ?upd))")
    case True
    have "mins = map minimalProjection ?upd"
      using m[OF True] by (rule mapT_minimalSession_projection)
    with m[OF True] True show ?thesis
      by (simp add: l sessionsPayload_array[OF f o] persistedSessions_def thenT_Inr
          del: stringify.simps)
  next
    case False
    then show ?thesis
      by (simp add: l sessionsPayload_array[OF f o] persistedSessions_def thenT_Inr
          del: stringify.simps)
  qed
  show ?thesis
    by (rule saveSessionLocally_persists[OF q p])
qed

lemma upsert_core:
  assumes q: "quiet (storage s)"
    and l: "fst (getLocalSessions env s) = JArr sessions"
    and f: "findIndexOf sessions (session_id d) 0 = Inr idx"
    and o: "optimizedSessionData env r d = Inr opt"
    and p: "persistedSessions (updatedSessions sessions idx opt) = Inr ys"
  shows "fst (getItemAsync SHARIAA_SESSIONS (storage (saveSessionLocally env r d s))) =
           Some (stringify (JArr ys)) \<and>
         length ys \<le> 20 \<and>
         (idx = None \<and> length sessions = 20 \<longrightarrow>
            JStr (session_id d) \<notin> set (map sessionIdOf sessions) \<and>
            updatedSessions sessions idx opt = opt # butlast sessions \<and>
            map sessionIdOf ys = JStr (session_id d) # map sessionIdOf (butlast sessions)) \<and>
         (\<forall>i. idx = Some i \<and> length sessions \<le> 20 \<longrightarrow>
            i < length sessions \<and> sessionIdOf (sessions ! i) = JStr (session_id d) \<and>
            updatedSessions sessions idx opt = sessions[i := opt] \<and>
            length ys = length sessions \<and>
            map sessionIdOf ys = map sessionIdOf sessions)"
proof -
  let ?upd = "updatedSessions sessions idx opt"
  note ps = persistedSessions_Inr[OF p]
  have pay: "sessionsPayload env r d (fst (getLocalSessions env s)) = Inr (stringify (JArr ys))"
    by (simp add: l sessionsPayload_array[OF f o] p thenT_Inr)
  have a: "fst (getItemAsync SHARIAA_SESSIONS (storage (saveSessionLocally env r d s))) =
           Some (stringify (JArr ys))"
    by (rule saveSessionLocally_persists[OF q pay])
  have b: "length ys \<le> 20"
    using ps(1) length_updatedSessions[of sessions idx opt] by simp
  have oid: "sessionIdOf opt = JStr (session_id d)"
    by (rule optimizedSessionData_id[OF o])
  have c: "idx = None \<and> length sessions = 20 \<longrightarrow>
            JStr (session_id d) \<notin> set (map sessionIdOf sessions) \<and>
            ?upd = opt # butlast sessions \<and>
            map sessionIdOf ys = JStr (session_id d) # map sessionIdOf (butlast sessions)"
  proof
    assume h: "idx = None \<and> length sessions = 20"
    then have u: "?upd = opt # butlast sessions"
      by (simp add: updatedSessions_new_full)
    have "JStr (session_id d) \<notin> set (map sessionIdOf sessions)"
      using f h by (intro findIndexOf_None[of sessions _ 0]) simp
    then show "JStr (session_id d) \<notin> set (map sessionIdOf sessions) \<and>
            ?upd = opt # butlast sessions \<and>
            map sessionIdOf ys = JStr (session_id d) # map sessionIdOf (butlast sessions)"
      using u ps(2) oid by simp
  qed
  have e: "\<forall>i. idx = Some i \<and> length sessions \<le> 20 \<longrightarrow>
            i < length sessions \<and> sessionIdOf (sessions ! i) = JStr (session_id d) \<and>
            ?upd = sessions[i := opt] \<and>
            length ys = length sessions \<and>
            map sessionIdOf ys = map sessionIdOf sessions"
  proof (intro allI impI)
    fix i assume h: "idx = Some i \<and> length sessions \<le> 20"
    then have fi: "findIndexOf sessions (session_id d) 0 = Inr (Some i)" using f by simp
    from findIndexOf_Some[OF fi] have i: "i < length sessions"
      and si: "sessionIdOf (sessions ! i) = JStr (session_id d)"
      by simp_all
    have u: "?upd = sessions[i := opt]"
      using h by (simp add: updatedSessions_existing)
    have "map sessionIdOf (sessions[i := opt]) = map sessionIdOf sessions"
      using i si oid by (simp add: map_update list_update_same_conv)
    then show "i < length sessions \<and> sessionIdOf (sessions ! i) = JStr (session_id d) \<and>
            ?upd = sessions[i := opt] \<and>
            length ys = length sessions \<and>
            map sessionIdOf ys = map sessionIdOf sessions"
      using i si u ps(1,2) by simp
  qed
  show ?thesis using a b c e by blast
qed

subsection \<open>The sample records\<close>

lemma numberOfNat_0: "numberOfNat 0 = JNum ''0''"
  unfolding numberOfNat_def by code_simp

lemma opt_eval: "optimizedSessionData offlineEnv initialState (sessionWithFilename f) = Inr (fullRecord f)"
  by (simp add: optimizedSessionData_def sessionWithFilename_def fullRecord_def propOf_def
      getSessionInteractions_def initialState_def offlineEnv_def thenT_Inr numberOfNat_0)

lemma min_eval: "mapT minimalSession [fullRecord f] = Inr [minimalRecord f]"
  by (simp add: minimalSession_def fullRecord_def minimalRecord_def getProp_def hasProp_def thenT_Inr)

lemma minimalProjection_fullRecord: "minimalProjection (fullRecord f) = minimalRecord f"
  by (simp add: minimalProjection_def fullRecord_def minimalRecord_def propertyOf_def hasProperty_def)

lemma concat_replicate_single: "concat (replicate n [c]) = replicate n c"
  by (induction n) simp_all

lemma quote_plain: "quoteJSONString (replicate n CHR ''a'') = [CHR 0x22] @ replicate n CHR ''a'' @ [CHR 0x22]"
  by (simp add: quoteJSONString_def escapeChar_def concat_replicate_single)

lemma len_full: "length (stringify (JArr [fullRecord (replicate n CHR ''a'')])) = 137 + n"
  by (simp add: fullRecord_def quote_plain) code_simp

lemma quiet_initialState: "quiet (storage initialState)"
  by (simp add: initialState_def emptyStore_def quiet_def)

lemma getLocalSessions_initialState: "fst (getLocalSessions env initialState) = JArr []"
proof -
  have "\<not> truthy (entries (storage initialState) (chunksKey SHARIAA_SESSIONS))"
    by (simp add: initialState_def emptyStore_def truthy_def)
  then have "fst (getItemAsync SHARIAA_SESSIONS (storage initialState)) =
      entries (storage initialState) SHARIAA_SESSIONS"
    by (rule getItemAsync_direct[OF quiet_initialState])
  then have "fst (getItemAsync SHARIAA_SESSIONS (storage initialState)) = None"
    by (simp add: initialState_def emptyStore_def)
  then obtain st where "getItemAsync SHARIAA_SESSIONS (storage initialState) = (None, st)"
    by (cases "getItemAsync SHARIAA_SESSIONS (storage initialState)") auto
  then show ?thesis
    by (simp add: getLocalSessions_def Let_def truthy_def)
qed

lemma updated_single: "updatedSessions [] None x = [x]"
  by (simp add: updatedSessions_def)

lemma len_minimal: "length (stringify (JArr [minimalRecord (replicate n CHR ''a'')])) = 115 + n"
  by (simp add: minimalRecord_def quote_plain) code_simp

lemma len_full_small: "length (stringify (JArr [fullRecord ''contract.pdf''])) = 149"
  by code_simp

lemma opt_eval_percentage:
  "optimizedSessionData offlineEnv initialState (sessionWithPercentage f p) =
     Inr (fullRecordWithPercentage f p)"
  by (simp add: optimizedSessionData_def sessionWithPercentage_def fullRecordWithPercentage_def
      propOf_def getSessionInteractions_def initialState_def offlineEnv_def thenT_Inr numberOfNat_0)

lemma len_full_exponent:
  "length (stringify (JArr [fullRecordWithPercentage (replicate n CHR ''a'') ''1e+21''])) = 167 + n"
  by (simp add: fullRecordWithPercentage_def quote_plain) code_simp

lemma quiet_historyState: "quiet (storage historyState)"
  by (simp add: historyState_def quiet_def)

lemma getLocalSessions_historyState:
  "fst (getLocalSessions historyEnv historyState) = JArr twentySessions"
proof -
  have "\<not> truthy (entries (storage historyState) (chunksKey SHARIAA_SESSIONS))"
    by (simp add: historyState_def truthy_def chunksKey_ne_key)
  then have "fst (getItemAsync SHARIAA_SESSIONS (storage historyState)) =
      entries (storage historyState) SHARIAA_SESSIONS"
    by (rule getItemAsync_direct[OF quiet_historyState])
  then have "fst (getItemAsync SHARIAA_SESSIONS (storage historyState)) =
      Some (stringify (JArr twentySessions))"
    by (simp add: historyState_def)
  then obtain st where g: "getItemAsync SHARIAA_SESSIONS (storage historyState) =
      (Some (stringify (JArr twentySessions)), st)"
    by (cases "getItemAsync SHARIAA_SESSIONS (storage historyState)") auto
  have t: "truthy (Some (stringify (JArr twentySessions)))"
    by (simp add: truthy_def)
  show ?thesis
    using t by (simp add: getLocalSessions_def g Let_def historyEnv_def del: stringify.simps)
qed

lemma length_twentySessions: "length twentySessions = 20"
  by (simp add: twentySessions_def)

lemma findIndexOf_new: "findIndexOf twentySessions ''new'' 0 = Inr None"
  by code_simp

lemma findIndexOf_c: "findIndexOf twentySessions ''c'' 0 = Inr (Some 2)"
  by code_simp

lemma opt_sample: "optimizedSessionData historyEnv historyState (sampleSession sid) = Inr (sampleRecord sid)"
  by (simp add: optimizedSessionData_def sampleSession_def sampleRecord_def propOf_def
      getSessionInteractions_def initialState_def historyState_def historyEnv_def offlineEnv_def thenT_Inr
      numberOfNat_0)

subsection \<open>Stored records that are objects\<close>

lemma isRecord_JObj: "isRecord x \<Longrightarrow> \<exists>ps. x = JObj ps"
  by (cases x) (simp_all add: isRecord_def)

lemma findIndexOf_records:
  "\<forall>x \<in> set xs. isRecord x \<Longrightarrow> \<exists>idx. findIndexOf xs sid i = Inr idx"
proof (induction xs arbitrary: i)
  case Nil
  then show ?case by simp
next
  case (Cons x xs)
  then obtain ps where x: "x = JObj ps" by (auto dest: isRecord_JObj)
  from Cons obtain idx where "findIndexOf xs sid (Suc i) = Inr idx" by fastforce
  then show ?case
    by (simp add: x getProp_def thenT_Inr)
qed

lemma minimalSession_record: "isRecord x \<Longrightarrow> \<exists>y. minimalSession x = Inr y"
  by (auto dest!: isRecord_JObj simp: minimalSession_def getProp_def hasProp_def thenT_Inr)

lemma termProjection_record: "isRecord x \<Longrightarrow> \<exists>y. termProjection x = Inr y"
  by (auto dest!: isRecord_JObj simp: termProjection_def getProp_def thenT_Inr)

lemma mapT_total:
  "\<forall>x \<in> set xs. \<exists>y. f x = Inr y \<Longrightarrow> \<exists>ys. mapT f xs = Inr ys"
proof (induction xs)
  case Nil
  then show ?case by simp
next
  case (Cons x xs)
  then obtain y ys where "f x = Inr y" "mapT f xs = Inr ys" by fastforce
  then show ?case by (simp add: thenT_Inr)
qed

lemma updatedSessions_records:
  assumes "\<forall>x \<in> set sessions. isRecord x" and "isRecord opt"
  shows "\<forall>x \<in> set (updatedSessions sessions idx opt). isRecord x"
proof -
  have "\<forall>x \<in> set (case idx of Some i \<Rightarrow> sessions[i := opt] | None \<Rightarrow> opt # sessions). isRecord x"
    using assms by (cases idx) (auto dest: set_update_subset_insert[THEN subsetD])
  then show ?thesis
    by (auto simp: updatedSessions_def dest: in_set_takeD)
qed

lemma optimizedSessionData_records:
  assumes "\<forall>ts. propOf d ''analysis_results'' = JArr ts \<longrightarrow> (\<forall>t \<in> set ts. isRecord t)"
  shows "\<exists>opt. optimizedSessionData env r d = Inr opt \<and> isRecord opt"
proof -
  let ?ts = "case propOf d ''analysis_results'' of JArr ts \<Rightarrow> ts | _ \<Rightarrow> []"
  have "\<forall>t \<in> set ?ts. isRecord t"
    using assms by (cases "propOf d ''analysis_results''") auto
  then have "\<forall>t \<in> set ?ts. \<exists>y. termProjection t = Inr y"
    using termProjection_record by blast
  then obtain terms where "mapT termProjection ?ts = Inr terms"
    using mapT_total by blast
  then show ?thesis
    by (simp add: optimizedSessionData_def Let_def thenT_Inr isRecord_def)
qed

text \<open>With a stored list of objects and object terms, the upsert reaches the write.\<close>

lemma upsert_reaches_write:
  assumes "\<forall>x \<in> set sessions. isRecord x"
    and "\<forall>ts. propOf d ''analysis_results'' = JArr ts \<longrightarrow> (\<forall>t \<in> set ts. isRecord t)"
  shows "\<exists>idx opt mins. findIndexOf sessions (session_id d) 0 = Inr idx \<and>
           optimizedSessionData env r d = Inr opt \<and>
           mapT minimalSession (updatedSessions sessions idx opt) = Inr mins"
proof -
  obtain idx where i: "findIndexOf sessions (session_id d) 0 = Inr idx"
    using findIndexOf_records[OF assms(1)] by blast
  obtain opt where o: "optimizedSessionData env r d = Inr opt" "isRecord opt"
    using optimizedSessionData_records[OF assms(2)] by blast
  have "\<forall>x \<in> set (updatedSessions sessions idx opt). \<exists>y. minimalSession x = Inr y"
    using updatedSessions_records[OF assms(1) o(2)] minimalSession_record by blast
  then obtain mins where "mapT minimalSession (updatedSessions sessions idx opt) = Inr mins"
    using mapT_total by blast
  with i o show ?thesis by blast
qed

subsection \<open>The size tiers\<close>

text \<open>
  C3, as amended. For every upsert that reaches the write (the stored list is an array
  whose records can be read, the store does not throw): when the serialization of the
  updated, truncated list is longer than 2000, the value stored under the sessions key
  is the serialization of the list of the minimal projections of all its records, a
  minimal projection being the identifier, the filename, the timestamp and the
  compliance percentage of the record and its two interaction counters, and nothing
  else; when its length is 2000 or less, the value stored is the serialization of the
  updated list itself.
\<close>

theorem saveSessionLocally_size_tiers:
  assumes "quiet (storage s)"
    and "fst (getLocalSessions env s) = JArr sessions"
    and "findIndexOf sessions (session_id d) 0 = Inr idx"
    and "optimizedSessionData env r d = Inr opt"
    and "2000 < length (stringify (JArr (updatedSessions sessions idx opt))) \<Longrightarrow>
         mapT minimalSession (updatedSessions sessions idx opt) = Inr mins"
  shows "fst (getItemAsync SHARIAA_SESSIONS (storage (saveSessionLocally env r d s))) =
           Some (if 2000 < length (stringify (JArr (updatedSessions sessions idx opt)))
                 then stringify (JArr (map minimalProjection (updatedSessions sessions idx opt)))
                 else stringify (JArr (updatedSessions sessions idx opt)))"
  using assms by (rule saveSessionLocally_tiers_core)

text \<open>Both tiers: a record with a short filename is stored in full, a record with a
  filename of 2000 characters is stored as its minimal projection.\<close>

theorem saveSessionLocally_size_tiers_witness:
  "quiet (storage initialState) \<and>
   fst (getLocalSessions offlineEnv initialState) = JArr [] \<and>
   findIndexOf [] (session_id (sessionWithFilename ''contract.pdf'')) 0 = Inr None \<and>
   optimizedSessionData offlineEnv initialState (sessionWithFilename ''contract.pdf'') =
     Inr (fullRecord ''contract.pdf'') \<and>
   mapT minimalSession (updatedSessions [] None (fullRecord ''contract.pdf'')) =
     Inr [minimalRecord ''contract.pdf''] \<and>
   length (stringify (JArr (updatedSessions [] None (fullRecord ''contract.pdf'')))) = 149 \<and>
   fst (getItemAsync SHARIAA_SESSIONS (storage (saveSessionLocally offlineEnv initialState
          (sessionWithFilename ''contract.pdf'') initialState))) =
     Some (stringify (JArr [fullRecord ''contract.pdf''])) \<and>
   findIndexOf [] (session_id (sessionWithFilename (replicate 2000 CHR ''a''))) 0 = Inr None \<and>
   optimizedSessionData offlineEnv initialState (sessionWithFilename (replicate 2000 CHR ''a'')) =
     Inr (fullRecord (replicate 2000 CHR ''a'')) \<and>
   mapT minimalSession (updatedSessions [] None (fullRecord (replicate 2000 CHR ''a''))) =
     Inr [minimalRecord (replicate 2000 CHR ''a'')] \<and>
   length (stringify (JArr (updatedSessions [] None (fullRecord (replicate 2000 CHR ''a''))))) = 2137 \<and>
   minimalProjection (fullRecord (replicate 2000 CHR ''a'')) = minimalRecord (replicate 2000 CHR ''a'') \<and>
   fst (getItemAsync SHARIAA_SESSIONS (storage (saveSessionLocally offlineEnv initialState
          (sessionWithFilename (replicate 2000 CHR ''a'')) initialState))) =
     Some (stringify (JArr [minimalRecord (replicate 2000 CHR ''a'')])) \<and>
   objectKeys (minimalRecord (replicate 2000 CHR ''a'')) = minimalKeys"
proof -
  let ?small = "''contract.pdf''"
  let ?big = "replicate 2000 CHR ''a''"
  note q = quiet_initialState
  have l: "fst (getLocalSessions offlineEnv initialState) = JArr []"
    by (rule getLocalSessions_initialState)
  have f1: "findIndexOf [] (session_id (sessionWithFilename ?small)) 0 = Inr None" by simp
  have f2: "findIndexOf [] (session_id (sessionWithFilename ?big)) 0 = Inr None" by simp
  have o1: "optimizedSessionData offlineEnv initialState (sessionWithFilename ?small) = Inr (fullRecord ?small)"
    by (rule opt_eval)
  have o2: "optimizedSessionData offlineEnv initialState (sessionWithFilename ?big) = Inr (fullRecord ?big)"
    by (rule opt_eval)
  have m1: "mapT minimalSession (updatedSessions [] None (fullRecord ?small)) = Inr [minimalRecord ?small]"
    by (simp only: updated_single min_eval)
  have m2: "mapT minimalSession (updatedSessions [] None (fullRecord ?big)) = Inr [minimalRecord ?big]"
    by (simp only: updated_single min_eval)
  have n1: "length (stringify (JArr (updatedSessions [] None (fullRecord ?small)))) = 149"
    by (simp only: updated_single len_full_small)
  have n2: "length (stringify (JArr (updatedSessions [] None (fullRecord ?big)))) = 2137"
    unfolding updated_single len_full by simp
  have pr: "minimalProjection (fullRecord ?big) = minimalRecord ?big"
    by (rule minimalProjection_fullRecord)
  note t1 = saveSessionLocally_size_tiers[OF q l f1 o1 m1]
  note t2 = saveSessionLocally_size_tiers[OF q l f2 o2 m2]
  have g1: "fst (getItemAsync SHARIAA_SESSIONS (storage (saveSessionLocally offlineEnv initialState
          (sessionWithFilename ?small) initialState))) = Some (stringify (JArr [fullRecord ?small]))"
    using t1 unfolding n1 by (simp only: updated_single) simp
  have g2: "fst (getItemAsync SHARIAA_SESSIONS (storage (saveSessionLocally offlineEnv initialState
          (sessionWithFilename ?big) initialState))) = Some (stringify (JArr [minimalRecord ?big]))"
    using t2 unfolding n2 by (simp add: updated_single pr del: stringify.simps)
  have k: "objectKeys (minimalRecord ?big) = minimalKeys"
    using objectKeys_minimalProjection[of "fullRecord ?big"] by (simp only: pr)
  show ?thesis
    using q l f1 o1 m1 n1 g1 f2 o2 m2 n2 pr g2 k by blast
qed

text \<open>
  C3 as stated fails at the threshold. In \<open>initialState\<close>, a record whose filename has
  1863 characters makes the serialization of the updated list exactly 2000 long; the
  value stored under the sessions key is then the serialization of the full record, not
  that of its minimal projection.
\<close>

theorem saveSessionLocally_at_threshold:
  "fst (getLocalSessions offlineEnv initialState) = JArr [] \<and>
   findIndexOf [] (session_id (sessionWithFilename (replicate 1863 CHR ''a''))) 0 = Inr None \<and>
   optimizedSessionData offlineEnv initialState (sessionWithFilename (replicate 1863 CHR ''a'')) =
     Inr (fullRecord (replicate 1863 CHR ''a'')) \<and>
   length (stringify (JArr (updatedSessions [] None (fullRecord (replicate 1863 CHR ''a''))))) = 2000 \<and>
   mapT minimalSession (updatedSessions [] None (fullRecord (replicate 1863 CHR ''a''))) =
     Inr [minimalRecord (replicate 1863 CHR ''a'')] \<and>
   fst (getItemAsync SHARIAA_SESSIONS (storage (saveSessionLocally offlineEnv initialState
          (sessionWithFilename (replicate 1863 CHR ''a'')) initialState))) =
     Some (stringify (JArr [fullRecord (replicate 1863 CHR ''a'')])) \<and>
   stringify (JArr [fullRecord (replicate 1863 CHR ''a'')]) \<noteq>
     stringify (JArr [minimalRecord (replicate 1863 CHR ''a'')])"
proof -
  let ?f = "replicate 1863 CHR ''a''"
  have l: "fst (getLocalSessions offlineEnv initialState) = JArr []"
    by (rule getLocalSessions_initialState)
  have f: "findIndexOf [] (session_id (sessionWithFilename ?f)) 0 = Inr None"
    by simp
  have o: "optimizedSessionData offlineEnv initialState (sessionWithFilename ?f) = Inr (fullRecord ?f)"
    by (rule opt_eval)
  have n: "length (stringify (JArr [fullRecord ?f])) = 2000"
    unfolding len_full by simp
  have m: "mapT minimalSession (updatedSessions [] None (fullRecord ?f)) = Inr [minimalRecord ?f]"
    by (simp only: updated_single min_eval)
  have "fst (getItemAsync SHARIAA_SESSIONS (storage (saveSessionLocally offlineEnv initialState
          (sessionWithFilename ?f) initialState))) =
        Some (if 2000 < length (stringify (JArr (updatedSessions [] None (fullRecord ?f))))
              then stringify (JArr (map minimalProjection (updatedSessions [] None (fullRecord ?f))))
              else stringify (JArr (updatedSessions [] None (fullRecord ?f))))"
    by (rule saveSessionLocally_tiers_core[OF quiet_initialState l f o m])
  then have g: "fst (getItemAsync SHARIAA_SESSIONS (storage (saveSessionLocally offlineEnv initialState
          (sessionWithFilename ?f) initialState))) = Some (stringify (JArr [fullRecord ?f]))"
    by (simp only: updated_single n) simp
  have "length (stringify (JArr [fullRecord ?f])) \<noteq> length (stringify (JArr [minimalRecord ?f]))"
    unfolding len_full len_minimal by simp
  then have d: "stringify (JArr [fullRecord ?f]) \<noteq> stringify (JArr [minimalRecord ?f])"
    by metis
  have n': "length (stringify (JArr (updatedSessions [] None (fullRecord ?f)))) = 2000"
    by (simp only: updated_single n)
  show ?thesis
    using l f o n' m g d by blast
qed

text \<open>The text of a number counts as the code counts it. With the compliance percentage
  \<open>1e+21\<close> and a filename of 1820 characters the serialization of the list is 1987
  long, and the record is stored in full; the 22 digits of the integer would have made
  it 2004 long.\<close>

lemma saveSessionLocally_exponent_number:
  "length (stringify (JArr [fullRecordWithPercentage (replicate 1820 CHR ''a'') ''1e+21''])) = 1987 \<and>
   fst (getItemAsync SHARIAA_SESSIONS (storage (saveSessionLocally offlineEnv initialState
          (sessionWithPercentage (replicate 1820 CHR ''a'') ''1e+21'') initialState))) =
     Some (stringify (JArr [fullRecordWithPercentage (replicate 1820 CHR ''a'') ''1e+21'']))"
proof -
  let ?d = "sessionWithPercentage (replicate 1820 CHR ''a'') ''1e+21''"
  let ?x = "fullRecordWithPercentage (replicate 1820 CHR ''a'') ''1e+21''"
  have l: "fst (getLocalSessions offlineEnv initialState) = JArr []"
    by (rule getLocalSessions_initialState)
  have f: "findIndexOf [] (session_id ?d) 0 = Inr None"
    by simp
  have o: "optimizedSessionData offlineEnv initialState ?d = Inr ?x"
    by (rule opt_eval_percentage)
  have n: "length (stringify (JArr [?x])) = 1987"
    unfolding len_full_exponent by simp
  have n': "length (stringify (JArr (updatedSessions [] None ?x))) = 1987"
    by (simp only: updated_single n)
  have m: "2000 < length (stringify (JArr (updatedSessions [] None ?x))) \<Longrightarrow>
      mapT minimalSession (updatedSessions [] None ?x) = Inr []"
    unfolding n' by simp
  have "fst (getItemAsync SHARIAA_SESSIONS (storage (saveSessionLocally offlineEnv initialState
          ?d initialState))) =
        Some (if 2000 < length (stringify (JArr (updatedSessions [] None ?x)))
              then stringify (JArr (map minimalProjection (updatedSessions [] None ?x)))
              else stringify (JArr (updatedSessions [] None ?x)))"
    by (rule saveSessionLocally_tiers_core[OF quiet_initialState l f o m])
  then have g: "fst (getItemAsync SHARIAA_SESSIONS (storage (saveSessionLocally offlineEnv initialState
          ?d initialState))) = Some (stringify (JArr [?x]))"
    unfolding n' by (simp add: updated_single del: stringify.simps)
  show ?thesis
    using n g by blast
qed

subsection \<open>The bound of twenty records\<close>

text \<open>
  C5. After an upsert that reaches the write, the list stored under the sessions key
  has at most 20 records. When the identifier is new and the list read has 20 records,
  the list after the upsert is the new record followed by all but the last of the old
  ones: the identifiers stored are the new one at index 0, then those of the first 19.
  When the identifier exists, at index \<open>i\<close>, in a list of at most 20 records, the
  record at \<open>i\<close> is replaced, the number of records and the identifiers, in order, are
  the same.
\<close>

theorem upsert_keeps_latest_twenty:
  assumes "quiet (storage s)"
    and "fst (getLocalSessions env s) = JArr sessions"
    and "findIndexOf sessions (session_id d) 0 = Inr idx"
    and "optimizedSessionData env r d = Inr opt"
    and "persistedSessions (updatedSessions sessions idx opt) = Inr ys"
  shows "fst (getItemAsync SHARIAA_SESSIONS (storage (saveSessionLocally env r d s))) =
           Some (stringify (JArr ys)) \<and>
         length ys \<le> 20 \<and>
         (idx = None \<and> length sessions = 20 \<longrightarrow>
            JStr (session_id d) \<notin> set (map sessionIdOf sessions) \<and>
            updatedSessions sessions idx opt = opt # butlast sessions \<and>
            map sessionIdOf ys = JStr (session_id d) # map sessionIdOf (butlast sessions)) \<and>
         (\<forall>i. idx = Some i \<and> length sessions \<le> 20 \<longrightarrow>
            i < length sessions \<and> sessionIdOf (sessions ! i) = JStr (session_id d) \<and>
            updatedSessions sessions idx opt = sessions[i := opt] \<and>
            length ys = length sessions \<and>
            map sessionIdOf ys = map sessionIdOf sessions)"
  using assms by (rule upsert_core)

lemma persisted_new:
  "persistedSessions (updatedSessions twentySessions None (sampleRecord ''new'')) =
     Inr (sampleRecord ''new'' # butlast twentySessions)"
proof -
  have "\<not> 2000 < length (stringify (JArr (updatedSessions twentySessions None (sampleRecord ''new''))))"
    by code_simp
  then show ?thesis
    by (simp add: persistedSessions_def updatedSessions_new_full[OF length_twentySessions]
        del: stringify.simps)
qed

lemma persisted_c:
  "persistedSessions (updatedSessions twentySessions (Some 2) (sampleRecord ''c'')) =
     Inr (twentySessions[2 := sampleRecord ''c''])"
proof -
  have "\<not> 2000 < length (stringify (JArr (updatedSessions twentySessions (Some 2) (sampleRecord ''c''))))"
    by code_simp
  then show ?thesis
    by (simp add: persistedSessions_def updatedSessions_existing length_twentySessions
        del: stringify.simps)
qed

text \<open>Both cases on the history of twenty sessions: a new identifier, and the
  identifier at index 2.\<close>

theorem upsert_keeps_latest_twenty_witness:
  "quiet (storage historyState) \<and>
   fst (getLocalSessions historyEnv historyState) = JArr twentySessions \<and>
   length twentySessions = 20 \<and>
   findIndexOf twentySessions (session_id (sampleSession ''new'')) 0 = Inr None \<and>
   optimizedSessionData historyEnv historyState (sampleSession ''new'') = Inr (sampleRecord ''new'') \<and>
   persistedSessions (updatedSessions twentySessions None (sampleRecord ''new'')) =
     Inr (sampleRecord ''new'' # butlast twentySessions) \<and>
   fst (getItemAsync SHARIAA_SESSIONS (storage (saveSessionLocally historyEnv historyState
          (sampleSession ''new'') historyState))) =
     Some (stringify (JArr (sampleRecord ''new'' # butlast twentySessions))) \<and>
   length (sampleRecord ''new'' # butlast twentySessions) = 20 \<and>
   map sessionIdOf (sampleRecord ''new'' # butlast twentySessions) =
     JStr ''new'' # map sessionIdOf (butlast twentySessions) \<and>
   findIndexOf twentySessions (session_id (sampleSession ''c'')) 0 = Inr (Some 2) \<and>
   optimizedSessionData historyEnv historyState (sampleSession ''c'') = Inr (sampleRecord ''c'') \<and>
   persistedSessions (updatedSessions twentySessions (Some 2) (sampleRecord ''c'')) =
     Inr (twentySessions[2 := sampleRecord ''c'']) \<and>
   fst (getItemAsync SHARIAA_SESSIONS (storage (saveSessionLocally historyEnv historyState
          (sampleSession ''c'') historyState))) =
     Some (stringify (JArr (twentySessions[2 := sampleRecord ''c'']))) \<and>
   length (twentySessions[2 := sampleRecord ''c'']) = length twentySessions"
proof -
  note q = quiet_historyState
  note l = getLocalSessions_historyState
  note n = length_twentySessions
  have sid: "session_id (sampleSession ''new'') = ''new''" "session_id (sampleSession ''c'') = ''c''"
    by (simp_all add: sampleSession_def)
  have f1: "findIndexOf twentySessions (session_id (sampleSession ''new'')) 0 = Inr None"
    by (simp only: sid findIndexOf_new)
  have f2: "findIndexOf twentySessions (session_id (sampleSession ''c'')) 0 = Inr (Some 2)"
    by (simp only: sid findIndexOf_c)
  note o1 = opt_sample[of "''new''"]
  note o2 = opt_sample[of "''c''"]
  note p1 = persisted_new
  note p2 = persisted_c
  note t1 = upsert_keeps_latest_twenty[OF q l f1 o1 p1]
  note t2 = upsert_keeps_latest_twenty[OF q l f2 o2 p2]
  have g1: "fst (getItemAsync SHARIAA_SESSIONS (storage (saveSessionLocally historyEnv historyState
          (sampleSession ''new'') historyState))) =
     Some (stringify (JArr (sampleRecord ''new'' # butlast twentySessions)))"
    using t1 by blast
  have g2: "fst (getItemAsync SHARIAA_SESSIONS (storage (saveSessionLocally historyEnv historyState
          (sampleSession ''c'') historyState))) =
     Some (stringify (JArr (twentySessions[2 := sampleRecord ''c''])))"
    using t2 by blast
  have i1: "map sessionIdOf (sampleRecord ''new'' # butlast twentySessions) =
     JStr ''new'' # map sessionIdOf (butlast twentySessions)"
    using t1[unfolded sid] n by blast
  have len1: "length (sampleRecord ''new'' # butlast twentySessions) = 20"
    using n by simp
  have len2: "length (twentySessions[2 := sampleRecord ''c'']) = length twentySessions"
    by simp
  show ?thesis
    using q l n f1 o1 p1 g1 len1 i1 f2 o2 p2 g2 len2 by blast
qed

end
